theory Spec2Isabelle
  imports Complex_Main "HOL-Library.Sublist" "HOL-Library.AList"
begin

section \<open>Texts\<close>

text \<open>
  A Python \<open>str\<close> is modelled as a \<^typ>\<open>string\<close>, each character read as a code point
  below 256. On these code points \<open>str.isspace\<close>, \<open>str.strip\<close>, \<open>str.split\<close> and the
  regular expression class \<open>\s\<close> agree on one set of whitespace characters:
  9 to 13, 28 to 32, 133 and 160.
\<close>

definition isspace :: "char \<Rightarrow> bool" where
  "isspace c = (of_char c \<in> {9, 10, 11, 12, 13, 28, 29, 30, 31, 32, 133, 160 :: nat})"

definition lstrip :: "string \<Rightarrow> string" where
  "lstrip s = dropWhile isspace s"

definition rstrip :: "string \<Rightarrow> string" where
  "rstrip s = rev (dropWhile isspace (rev s))"

definition strip :: "string \<Rightarrow> string" where
  "strip s = rstrip (lstrip s)"

text \<open>\<open>s.split()\<close>: the maximal runs of characters that are not whitespace, in order.\<close>

primrec split_acc :: "string \<Rightarrow> string \<Rightarrow> string list" where
  "split_acc [] cur = (if cur = [] then [] else [cur])"
| "split_acc (c # cs) cur =
     (if isspace c then (if cur = [] then split_acc cs [] else cur # split_acc cs [])
      else split_acc cs (cur @ [c]))"

definition split :: "string \<Rightarrow> string list" where
  "split s = split_acc s []"

text \<open>\<open>str(n)\<close> of a natural number: its decimal digits.\<close>

definition digit_char :: "nat \<Rightarrow> char" where
  "digit_char d = char_of (48 + d)"

fun str_nat :: "nat \<Rightarrow> string" where
  "str_nat n = (if n < 10 then [digit_char n] else str_nat (n div 10) @ [digit_char (n mod 10)])"

declare str_nat.simps [simp del]

section \<open>Metadata calculator (\<open>calculate_metadata\<close> in \<open>ai_service.py\<close>)\<close>

text \<open>
  Python floats are modelled as reals: the rounding of a double is left out. The format
  \<open>:.1f\<close> rounds to the nearest tenth, a tie going to the even neighbour.
\<close>

definition round_half_even :: "real \<Rightarrow> int" where
  "round_half_even x =
     (let f = \<lfloor>x\<rfloor>; r = x - of_int f
      in if r < 1 / 2 then f else if 1 / 2 < r then f + 1 else if even f then f else f + 1)"

definition format_1f :: "real \<Rightarrow> string" where
  "format_1f x =
     (let t = nat (round_half_even (x * 10))
      in str_nat (t div 10) @ ''.'' @ str_nat (t mod 10))"

record metadata =
  wordCount :: nat
  estimatedReadTime :: string
  originalLength :: nat
  processingTime :: real

definition calculate_metadata :: "string \<Rightarrow> string \<Rightarrow> real \<Rightarrow> metadata" where
  "calculate_metadata tailored_script original_transcript processing_time =
     (let word_count = length (split tailored_script);
          original_length = length (split original_transcript);
          read_time_minutes = real word_count / 150;
          estimated_read_time =
            (if read_time_minutes < 1
             then str_nat (nat \<lfloor>read_time_minutes * 60\<rfloor>) @ ''s''
             else format_1f read_time_minutes @ ''m'')
      in \<lparr>wordCount = word_count,
          estimatedReadTime = estimated_read_time,
          originalLength = original_length,
          processingTime = processing_time\<rparr>)"

section \<open>Platform classification (\<open>_detect_platform\<close> in \<open>main.py\<close>)\<close>

text \<open>\<open>str.lower\<close> on the code points below 256.\<close>

definition lower_char :: "char \<Rightarrow> char" where
  "lower_char c =
     (let n = of_char c :: nat
      in if (65 \<le> n \<and> n \<le> 90) \<or> (192 \<le> n \<and> n \<le> 214) \<or> (216 \<le> n \<and> n \<le> 222)
         then char_of (n + 32) else c)"

definition lower :: "string \<Rightarrow> string" where
  "lower s = map lower_char s"

text \<open>\<open>pat in s\<close>: the text \<open>pat\<close> occurs in \<open>s\<close>.\<close>

fun str_in :: "string \<Rightarrow> string \<Rightarrow> bool" where
  "str_in pat [] = (pat = [])"
| "str_in pat (c # cs) = (prefix pat (c # cs) \<or> str_in pat cs)"

record platform_info =
  platform :: string
  supported :: bool
  reliability :: string
  recommendation :: string

definition detect_platform :: "string \<Rightarrow> platform_info" where
  "detect_platform url =
     (let url_lower = lower url
      in if str_in ''youtube.com'' url_lower \<or> str_in ''youtu.be'' url_lower then
           \<lparr>platform = ''YouTube'', supported = True, reliability = ''high'',
            recommendation = ''Fully supported and reliable''\<rparr>
         else if str_in ''tiktok.com'' url_lower \<or> str_in ''m.tiktok.com'' url_lower then
           \<lparr>platform = ''TikTok'', supported = True, reliability = ''low'',
            recommendation =
              ''May fail due to rate limiting. Consider retry logic or alternative methods.''\<rparr>
         else if str_in ''x.com'' url_lower \<or> str_in ''twitter.com'' url_lower then
           \<lparr>platform = ''X (Twitter)'', supported = True, reliability = ''low'',
            recommendation =
              ''May fail due to access restrictions. Consider alternative methods.''\<rparr>
         else if str_in ''instagram.com'' url_lower then
           \<lparr>platform = ''Instagram'', supported = True, reliability = ''medium'',
            recommendation = ''Supported but may have limitations''\<rparr>
         else if str_in ''vimeo.com'' url_lower then
           \<lparr>platform = ''Vimeo'', supported = False, reliability = ''none'',
            recommendation =
              ''Not supported by Supadata. Use alternative transcription service.''\<rparr>
         else if str_in ''twitch.tv'' url_lower then
           \<lparr>platform = ''Twitch'', supported = False, reliability = ''none'',
            recommendation =
              ''Not supported by Supadata. Use alternative transcription service.''\<rparr>
         else
           \<lparr>platform = ''Unknown'', supported = False, reliability = ''unknown'',
            recommendation =
              ''Platform not recognized. Check if URL is valid and supported.''\<rparr>)"

section \<open>Retry loop (\<open>_transcribe_with_retry\<close> in \<open>main.py\<close>)\<close>

text \<open>
  The dictionaries the fetcher returns: a success carries url, platform, language and
  transcript; a queued job carries url, platform and job id; an error carries url,
  platform and the nested error dictionary. The key \<open>platform_recommendation\<close> is absent
  from the error of an unsupported platform.
\<close>

record error_info =
  code :: string
  message :: string
  details :: string
  platform_recommendation :: "string option"

datatype outcome =
  Success string string string string
| Processing string string string
| Error string string error_info

fun status :: "outcome \<Rightarrow> string" where
  "status (Success _ _ _ _) = ''success''"
| "status (Processing _ _ _) = ''processing''"
| "status (Error _ _ _) = ''error''"

fun error_code :: "outcome \<Rightarrow> string option" where
  "error_code (Error _ _ e) = Some (code e)"
| "error_code _ = None"

text \<open>
  What one call of \<open>supadata.transcript\<close> does: it returns an object with \<open>content\<close> and
  \<open>lang\<close>, or one without \<open>content\<close> that has a \<open>job_id\<close>, or it raises a
  \<open>SupadataError\<close> with the given text, or any other \<open>Exception\<close> (which covers a returned
  object that lacks the attribute read from it). The provider is a parameter: the outcome
  of the call made with these arguments at the attempt of this index.
\<close>

datatype response =
  Content string string
| Job string
| SupadataError string
| OtherException string

type_synonym provider = "string \<Rightarrow> string \<Rightarrow> bool \<Rightarrow> string \<Rightarrow> nat \<Rightarrow> response"

definition str_int :: "int \<Rightarrow> string" where
  "str_int i = (if i < 0 then ''-'' @ str_nat (nat (- i)) else str_nat (nat i))"

text \<open>
  The \<open>for attempt in range(max_retries)\<close> loop from the iteration \<open>attempt\<close> on. The
  result is the dictionary returned from inside the loop, or \<open>None\<close> when the loop runs
  out, together with the seconds passed to \<open>asyncio.sleep\<close>, in order.
\<close>

function retry_loop ::
  "provider \<Rightarrow> string \<Rightarrow> string \<Rightarrow> bool \<Rightarrow> string \<Rightarrow> platform_info \<Rightarrow> int \<Rightarrow> nat \<Rightarrow> nat list
     \<Rightarrow> outcome option \<times> nat list" where
  "retry_loop supadata url lang text mode info max_retries attempt sleeps =
     (if int attempt < max_retries then
        (case supadata url lang text mode attempt of
           Content tlang content \<Rightarrow> (Some (Success url (platform info) tlang content), sleeps)
         | Job job_id \<Rightarrow> (Some (Processing url (platform info) job_id), sleeps)
         | SupadataError error_msg \<Rightarrow>
             (case (if str_in ''status 429'' error_msg then Some (2 ^ attempt * 5)
                    else if str_in ''status 400'' error_msg \<or> str_in ''status 500'' error_msg
                    then Some (2 ^ attempt * 2)
                    else None) of
                None \<Rightarrow>
                  (Some (Error url (platform info)
                     \<lparr>code = ''TRANSCRIPTION_ERROR'',
                      message = ''Failed to transcribe '' @ platform info @ '' video: '' @ error_msg,
                      details = error_msg,
                      platform_recommendation = Some (recommendation info)\<rparr>), sleeps)
              | Some wait_time \<Rightarrow>
                  (if int attempt = max_retries - 1 then
                     (Some (Error url (platform info)
                        \<lparr>code = ''TRANSCRIPTION_FAILED'',
                         message = ''Failed to transcribe '' @ platform info @ '' video after ''
                           @ str_int max_retries @ '' attempts: '' @ error_msg,
                         details = error_msg,
                         platform_recommendation = Some (recommendation info)\<rparr>),
                      sleeps @ [wait_time])
                   else retry_loop supadata url lang text mode info max_retries (Suc attempt)
                          (sleeps @ [wait_time])))
         | OtherException e \<Rightarrow>
             (if int attempt = max_retries - 1 then
                (Some (Error url (platform info)
                   \<lparr>code = ''UNEXPECTED_ERROR'',
                    message = ''Unexpected error transcribing '' @ platform info @ '' video: '' @ e,
                    details = e,
                    platform_recommendation = Some (recommendation info)\<rparr>), sleeps)
              else retry_loop supadata url lang text mode info max_retries (Suc attempt)
                     (sleeps @ [2 ^ attempt])))
      else (None, sleeps))"
  by pat_completeness auto
termination
  by (relation "measure (\<lambda>(supadata, url, lang, text, mode, info, max_retries, attempt, sleeps).
        nat (max_retries - int attempt))") auto

declare retry_loop.simps [simp del]

definition transcribe_with_retry ::
  "provider \<Rightarrow> string \<Rightarrow> string \<Rightarrow> bool \<Rightarrow> string \<Rightarrow> int \<Rightarrow> outcome \<times> nat list" where
  "transcribe_with_retry supadata url lang text mode max_retries =
     (let platform_info = detect_platform url
      in if \<not> supported platform_info then
           (Error url (platform platform_info)
              \<lparr>code = ''PLATFORM_NOT_SUPPORTED'',
               message = ''Platform '' @ platform platform_info @ '' is not supported by Supadata'',
               details = recommendation platform_info,
               platform_recommendation = None\<rparr>, [])
         else
           (let max_retries' =
                  (if reliability platform_info = ''low'' then max max_retries 5 else max_retries)
            in case retry_loop supadata url lang text mode platform_info max_retries' 0 [] of
                 (Some result, sleeps) \<Rightarrow> (result, sleeps)
               | (None, sleeps) \<Rightarrow>
                   (Error url (platform platform_info)
                      \<lparr>code = ''UNKNOWN_ERROR'',
                       message = ''Unknown error occurred during '' @ platform platform_info
                         @ '' transcription'',
                       details = ''Maximum retries exceeded'',
                       platform_recommendation = Some (recommendation platform_info)\<rparr>, sleeps)))"

section \<open>The \<open>/transcribe\<close> endpoint and its cache (\<open>main.py\<close>)\<close>

text \<open>
  \<open>CACHE\<close> maps the hash of a URL to an entry holding the result and the time of the
  request that stored it. The hash function (\<open>hashlib.sha256\<close>) is a parameter. Each call
  of \<open>_transcribe_with_retry\<close> is recorded in \<open>fetched\<close>; the provider answering the
  call number \<open>n\<close> of the process is \<open>supadata n\<close>.
\<close>

record cache_entry =
  result :: outcome
  timestamp :: real

record transcribe_state =
  CACHE :: "string \<rightharpoonup> cache_entry"
  results :: "outcome list"
  fetched :: "string list"

definition CACHE_TTL :: real where
  "CACHE_TTL = 86400"

definition fetch_and_store ::
  "(string \<Rightarrow> string) \<Rightarrow> (nat \<Rightarrow> provider) \<Rightarrow> string \<Rightarrow> bool \<Rightarrow> string \<Rightarrow> real
     \<Rightarrow> transcribe_state \<Rightarrow> string \<Rightarrow> transcribe_state" where
  "fetch_and_store hash_url supadata lang text mode now st url =
     (let key = hash_url url;
          r = fst (transcribe_with_retry (supadata (length (fetched st))) url lang text mode 3);
          cache' = (if status r \<in> {''success'', ''processing''}
                    then (CACHE st)(key \<mapsto> \<lparr>result = r, timestamp = now\<rparr>)
                    else CACHE st)
      in \<lparr>CACHE = cache', results = results st @ [r], fetched = fetched st @ [url]\<rparr>)"

text \<open>The body of \<open>for url in data.urls\<close>.\<close>

definition transcribe_url ::
  "(string \<Rightarrow> string) \<Rightarrow> (nat \<Rightarrow> provider) \<Rightarrow> string \<Rightarrow> bool \<Rightarrow> string \<Rightarrow> real
     \<Rightarrow> transcribe_state \<Rightarrow> string \<Rightarrow> transcribe_state" where
  "transcribe_url hash_url supadata lang text mode now st url =
     (let key = hash_url url
      in case CACHE st key of
           Some entry \<Rightarrow>
             (if now - timestamp entry < CACHE_TTL
              then st\<lparr>results := results st @ [result entry]\<rparr>
              else fetch_and_store hash_url supadata lang text mode now
                     (st\<lparr>CACHE := (CACHE st)(key := None)\<rparr>) url)
         | None \<Rightarrow> fetch_and_store hash_url supadata lang text mode now st url)"

record summary =
  total :: nat
  successful :: nat
  failed :: nat

text \<open>
  One request: the state before it holds the cache and the calls made so far; the
  results start empty. The answer is the list of results and the summary.
\<close>

definition transcribe ::
  "(string \<Rightarrow> string) \<Rightarrow> (nat \<Rightarrow> provider) \<Rightarrow> real \<Rightarrow> transcribe_state
     \<Rightarrow> string list \<Rightarrow> string \<Rightarrow> bool \<Rightarrow> string
     \<Rightarrow> (outcome list \<times> summary) \<times> transcribe_state" where
  "transcribe hash_url supadata now st urls lang text mode =
     (let st' = foldl (transcribe_url hash_url supadata lang text mode now)
                  (st\<lparr>results := []\<rparr>) urls;
          successful =
            length (filter (\<lambda>r. status r \<in> {''success'', ''processing''}) (results st'));
          failed = length (results st') - successful
      in ((results st',
           \<lparr>total = length (results st'), successful = successful, failed = failed\<rparr>), st'))"

text \<open>The invariant of the cache: every stored result is a success or a queued job.\<close>

definition cache_ok :: "(string \<rightharpoonup> cache_entry) \<Rightarrow> bool" where
  "cache_ok c = (\<forall>k e. c k = Some e \<longrightarrow> status (result e) \<in> {''success'', ''processing''})"

section \<open>Decoded JSON values and the decoder\<close>

text \<open>
  What \<open>json.loads\<close> returns: \<open>None\<close>, a \<open>bool\<close>, an \<open>int\<close>, a \<open>float\<close> (a real number
  here, or one of the three constants the decoder accepts), a \<open>str\<close>, a \<open>list\<close> or a
  \<open>dict\<close>. A \<open>dict\<close> is a list of pairs with distinct keys, in the order of insertion.
\<close>

datatype json =
  JNull
| JBool bool
| JInt int
| JFloat real
| JNaN
| JInfinity
| JNegInfinity
| JString string
| JArray "json list"
| JObject "(string \<times> json) list"

text \<open>
  The exceptions of the model: the \<open>json.JSONDecodeError\<close> of the decoder, and any other
  \<open>Exception\<close> with its text \<open>str(e)\<close>.
\<close>

datatype py_exception =
  JSONDecodeError
| OtherError string

text \<open>
  The functions of \<open>ai_service.py\<close> that call \<open>json.loads\<close> take the decoder as a
  parameter \<open>loads\<close>. The decoder \<open>json_loads\<close> below follows the grammar of Python's
  \<open>json\<close> module in its default mode on texts of code points below 256: whitespace is
  space, tab, line feed and carriage return; a control character inside a string is an
  error; the constants \<open>NaN\<close>, \<open>Infinity\<close> and \<open>-Infinity\<close> are accepted; the last value
  of a repeated key wins. It leaves out the limits of the interpreter (recursion depth,
  digits of an integer, range of a double), and it rejects an escape \<open>\uXXXX\<close> above
  \<open>00FF\<close>, whose character is outside these texts.
\<close>

datatype token =
  TLBrace | TRBrace | TLBracket | TRBracket | TComma | TColon
| TValue json

definition is_digit :: "char \<Rightarrow> bool" where
  "is_digit c = (48 \<le> (of_char c :: nat) \<and> (of_char c :: nat) \<le> 57)"

definition digit_val :: "char \<Rightarrow> nat" where
  "digit_val c = of_char c - 48"

definition nat_of_digits :: "string \<Rightarrow> nat" where
  "nat_of_digits ds = foldl (\<lambda>n c. 10 * n + digit_val c) 0 ds"

definition hex_val :: "char \<Rightarrow> nat option" where
  "hex_val c =
     (let n = of_char c :: nat
      in if 48 \<le> n \<and> n \<le> 57 then Some (n - 48)
         else if 65 \<le> n \<and> n \<le> 70 then Some (n - 55)
         else if 97 \<le> n \<and> n \<le> 102 then Some (n - 87)
         else None)"

text \<open>
  A number: \<open>-?(0|[1-9][0-9]*)(\.[0-9]+)?([eE][-+]?[0-9]+)?\<close>, an \<open>int\<close> when it has
  neither fraction nor exponent and a \<open>float\<close> otherwise.
\<close>

definition parse_exponent :: "string \<Rightarrow> int option" where
  "parse_exponent r =
     (case r of
        [] \<Rightarrow> None
      | c # r' \<Rightarrow>
          (let (neg, ds) = (if c = CHR ''-'' then (True, r')
                            else if c = CHR ''+'' then (False, r') else (False, r))
           in if ds \<noteq> [] \<and> list_all is_digit ds
              then Some (if neg then - int (nat_of_digits ds) else int (nat_of_digits ds))
              else None))"

definition parse_number :: "string \<Rightarrow> json option" where
  "parse_number w =
     (let (neg, r0) = (case w of c # r \<Rightarrow> if c = CHR ''-'' then (True, r) else (False, w)
                       | [] \<Rightarrow> (False, w));
          ds = takeWhile is_digit r0;
          r1 = dropWhile is_digit r0
      in if ds = [] \<or> (1 < length ds \<and> hd ds = CHR ''0'') then None
         else
           (let (has_frac, frac, r2) =
                  (case r1 of
                     c # r \<Rightarrow> if c = CHR ''.''
                              then (True, takeWhile is_digit r, dropWhile is_digit r)
                              else (False, [], r1)
                   | [] \<Rightarrow> (False, [], r1))
            in if has_frac \<and> frac = [] then None
               else
                 (let ex = (case r2 of
                              [] \<Rightarrow> Some None
                            | c # r \<Rightarrow> if c = CHR ''e'' \<or> c = CHR ''E''
                                       then map_option Some (parse_exponent r) else None)
                  in case ex of
                       None \<Rightarrow> None
                     | Some None \<Rightarrow>
                         if has_frac
                         then Some (JFloat ((if neg then - 1 else 1)
                                * (real (nat_of_digits (ds @ frac)) / 10 ^ length frac)))
                         else Some (JInt ((if neg then - 1 else 1) * int (nat_of_digits ds)))
                     | Some (Some e) \<Rightarrow>
                         Some (JFloat ((if neg then - 1 else 1)
                                * (real (nat_of_digits (ds @ frac)) / 10 ^ length frac)
                                * (if 0 \<le> e then 10 ^ nat e else 1 / 10 ^ nat (- e)))))))"

definition word_token :: "string \<Rightarrow> json option" where
  "word_token w =
     (if w = ''null'' then Some JNull
      else if w = ''true'' then Some (JBool True)
      else if w = ''false'' then Some (JBool False)
      else if w = ''NaN'' then Some JNaN
      else if w = ''Infinity'' then Some JInfinity
      else if w = ''-Infinity'' then Some JNegInfinity
      else parse_number w)"

text \<open>
  The scanner reads one character at a time. Outside a string it skips whitespace, emits
  the six structural characters and collects any other run of characters as a word (a
  literal or a number); inside a string it handles the escapes. Accumulators are kept
  in reverse.
\<close>

datatype lexmode =
  LNormal
| LWord string
| LString string
| LEscape string
| LUnicode string "nat list"

definition json_space :: "char \<Rightarrow> bool" where
  "json_space c = (c = CHR '' '' \<or> c = CHR 0x09 \<or> c = CHR 0x0A \<or> c = CHR 0x0D)"

definition lex_normal :: "char \<Rightarrow> token list \<Rightarrow> (lexmode \<times> token list) option" where
  "lex_normal c toks =
     (if json_space c then Some (LNormal, toks)
      else if c = CHR ''{'' then Some (LNormal, TLBrace # toks)
      else if c = CHR ''}'' then Some (LNormal, TRBrace # toks)
      else if c = CHR ''['' then Some (LNormal, TLBracket # toks)
      else if c = CHR '']'' then Some (LNormal, TRBracket # toks)
      else if c = CHR '','' then Some (LNormal, TComma # toks)
      else if c = CHR '':'' then Some (LNormal, TColon # toks)
      else if c = CHR 0x22 then Some (LString [], toks)
      else Some (LWord [c], toks))"

definition ends_word :: "char \<Rightarrow> bool" where
  "ends_word c = (json_space c \<or> c \<in> set ''{}[],:'' \<or> c = CHR 0x22)"

fun lex_step :: "lexmode \<Rightarrow> token list \<Rightarrow> char \<Rightarrow> (lexmode \<times> token list) option" where
  "lex_step LNormal toks c = lex_normal c toks"
| "lex_step (LWord w) toks c =
     (if ends_word c
      then (case word_token (rev w) of
              None \<Rightarrow> None
            | Some v \<Rightarrow> lex_normal c (TValue v # toks))
      else Some (LWord (c # w), toks))"
| "lex_step (LString acc) toks c =
     (if c = CHR 0x22 then Some (LNormal, TValue (JString (rev acc)) # toks)
      else if c = CHR 0x5C then Some (LEscape acc, toks)
      else if (of_char c :: nat) < 32 then None
      else Some (LString (c # acc), toks))"
| "lex_step (LEscape acc) toks c =
     (if c = CHR 0x22 \<or> c = CHR 0x5C \<or> c = CHR ''/'' then Some (LString (c # acc), toks)
      else if c = CHR ''b'' then Some (LString (CHR 0x08 # acc), toks)
      else if c = CHR ''f'' then Some (LString (CHR 0x0C # acc), toks)
      else if c = CHR ''n'' then Some (LString (CHR 0x0A # acc), toks)
      else if c = CHR ''r'' then Some (LString (CHR 0x0D # acc), toks)
      else if c = CHR ''t'' then Some (LString (CHR 0x09 # acc), toks)
      else if c = CHR ''u'' then Some (LUnicode acc [], toks)
      else None)"
| "lex_step (LUnicode acc hs) toks c =
     (case hex_val c of
        None \<Rightarrow> None
      | Some h \<Rightarrow>
          (let hs' = hs @ [h]
           in if length hs' < 4 then Some (LUnicode acc hs', toks)
              else (let n = foldl (\<lambda>a d. 16 * a + d) 0 hs'
                    in if n < 256 then Some (LString (char_of n # acc), toks) else None)))"

fun lex :: "lexmode \<Rightarrow> token list \<Rightarrow> string \<Rightarrow> token list option" where
  "lex m toks [] =
     (case m of
        LNormal \<Rightarrow> Some (rev toks)
      | LWord w \<Rightarrow> map_option (\<lambda>v. rev (TValue v # toks)) (word_token (rev w))
      | _ \<Rightarrow> None)"
| "lex m toks (c # cs) =
     (case lex_step m toks c of
        None \<Rightarrow> None
      | Some (m', toks') \<Rightarrow> lex m' toks' cs)"

text \<open>
  The parser reads one token at a time and keeps the containers that are open: an array
  with its elements so far (in reverse), an object with its pairs so far and the key
  that waits for its value.
\<close>

datatype frame =
  FArray "json list"
| FObject "(string \<times> json) list" "string option"

datatype expect =
  EValue | EValueOrClose | EKeyOrClose | EKey | EColon | ECommaOrClose | EDone json

fun put_value :: "json \<Rightarrow> frame list \<Rightarrow> (expect \<times> frame list) option" where
  "put_value v [] = Some (EDone v, [])"
| "put_value v (FArray es # st) = Some (ECommaOrClose, FArray (v # es) # st)"
| "put_value v (FObject kvs (Some k) # st) =
     Some (ECommaOrClose, FObject (AList.update k v kvs) None # st)"
| "put_value v (FObject kvs None # st) = None"

definition open_value :: "frame list \<Rightarrow> token \<Rightarrow> (expect \<times> frame list) option" where
  "open_value st t =
     (case t of
        TValue v \<Rightarrow> put_value v st
      | TLBracket \<Rightarrow> Some (EValueOrClose, FArray [] # st)
      | TLBrace \<Rightarrow> Some (EKeyOrClose, FObject [] None # st)
      | _ \<Rightarrow> None)"

definition close_array :: "frame list \<Rightarrow> (expect \<times> frame list) option" where
  "close_array st =
     (case st of FArray es # st' \<Rightarrow> put_value (JArray (rev es)) st' | _ \<Rightarrow> None)"

definition close_object :: "frame list \<Rightarrow> (expect \<times> frame list) option" where
  "close_object st =
     (case st of FObject kvs None # st' \<Rightarrow> put_value (JObject kvs) st' | _ \<Rightarrow> None)"

definition read_key :: "frame list \<Rightarrow> token \<Rightarrow> (expect \<times> frame list) option" where
  "read_key st t =
     (case st of
        FObject kvs None # st' \<Rightarrow>
          (case t of TValue (JString k) \<Rightarrow> Some (EColon, FObject kvs (Some k) # st') | _ \<Rightarrow> None)
      | _ \<Rightarrow> None)"

definition parse_step :: "expect \<Rightarrow> frame list \<Rightarrow> token \<Rightarrow> (expect \<times> frame list) option" where
  "parse_step e st t =
     (case e of
        EValue \<Rightarrow> open_value st t
      | EValueOrClose \<Rightarrow> (case t of TRBracket \<Rightarrow> close_array st | _ \<Rightarrow> open_value st t)
      | EKeyOrClose \<Rightarrow> (case t of TRBrace \<Rightarrow> close_object st | _ \<Rightarrow> read_key st t)
      | EKey \<Rightarrow> read_key st t
      | EColon \<Rightarrow> (case t of TColon \<Rightarrow> Some (EValue, st) | _ \<Rightarrow> None)
      | ECommaOrClose \<Rightarrow>
          (case t of
             TComma \<Rightarrow>
               (case st of
                  FArray es # st' \<Rightarrow> Some (EValue, st)
                | FObject kvs None # st' \<Rightarrow> Some (EKey, st)
                | _ \<Rightarrow> None)
           | TRBracket \<Rightarrow> close_array st
           | TRBrace \<Rightarrow> close_object st
           | _ \<Rightarrow> None)
      | EDone v \<Rightarrow> None)"

fun parse_tokens :: "expect \<Rightarrow> frame list \<Rightarrow> token list \<Rightarrow> json option" where
  "parse_tokens e st [] = (case e of EDone v \<Rightarrow> Some v | _ \<Rightarrow> None)"
| "parse_tokens e st (t # ts) =
     (case parse_step e st t of
        None \<Rightarrow> None
      | Some (e', st') \<Rightarrow> parse_tokens e' st' ts)"

definition json_loads :: "string \<Rightarrow> py_exception + json" where
  "json_loads s =
     (case lex LNormal [] s of
        None \<Rightarrow> Inl JSONDecodeError
      | Some toks \<Rightarrow>
          (case parse_tokens EValue [] toks of
             None \<Rightarrow> Inl JSONDecodeError
           | Some v \<Rightarrow> Inr v))"

section \<open>The JSON salvage engine (\<open>parse_ai_response\<close> in \<open>ai_service.py\<close>)\<close>

definition nl :: string where
  "nl = [CHR 0x0A]"

text \<open>
  \<open>re.sub(r'^```json\s*', '', s)\<close> and \<open>re.sub(r'^```\s*', '', s)\<close>: the fence at the
  start of the text goes, with the whitespace after it.
\<close>

definition sub_leading :: "string \<Rightarrow> string \<Rightarrow> string" where
  "sub_leading fence s =
     (if prefix fence s then dropWhile isspace (drop (length fence) s) else s)"

text \<open>
  \<open>re.sub(r'\s*```$', '', s)\<close>: \<open>$\<close> matches at the end of the text and before a line
  feed that ends it; the match starts with the whitespace before the fence.
\<close>

definition sub_trailing :: "string \<Rightarrow> string" where
  "sub_trailing s =
     (if suffix ''```'' s then rstrip (take (length s - 3) s)
      else if suffix (''```'' @ nl) s then rstrip (take (length s - 4) s) @ nl
      else s)"

definition clean_response :: "string \<Rightarrow> string" where
  "clean_response ai_response =
     (let clean = strip ai_response
      in if prefix ''```json'' clean then sub_trailing (sub_leading ''```json'' clean)
         else if prefix ''```'' clean then sub_trailing (sub_leading ''```'' clean)
         else clean)"

definition fallback :: json where
  "fallback =
     JObject
      [(''tailoredScript'', JString ''Error: Could not parse AI response. Please try again.''),
       (''confidence'', JFloat 0.1),
       (''improvementAreas'', JArray [JString ''parsing_error'']),
       (''sectionBreakdown'', JArray []),
       (''sutherlandAlchemy'',
          JObject [(''explanation'', JString ''Error in parsing response''),
                   (''valueReframing'', JArray []),
                   (''identityShifts'', JArray [])]),
       (''hormoziValueStack'',
          JObject [(''coreOffer'', JString ''Error in analysis''),
                   (''valueElements'', JArray []),
                   (''totalStack'', JObject []),
                   (''grandSlamElements'', JArray [])])]"

text \<open>
  The scan of \<open>_fix_unterminated_strings\<close>: \<open>i\<close> is the index of the next character; the
  result is \<open>in_string\<close> and \<open>last_valid_pos\<close> at the end of the text.
\<close>

fun scan_quotes :: "string \<Rightarrow> nat \<Rightarrow> bool \<Rightarrow> bool \<Rightarrow> nat \<Rightarrow> bool \<times> nat" where
  "scan_quotes [] i in_string escape_next last_valid_pos = (in_string, last_valid_pos)"
| "scan_quotes (c # cs) i in_string escape_next last_valid_pos =
     (if escape_next then scan_quotes cs (i + 1) in_string False last_valid_pos
      else if c = CHR 0x5C then scan_quotes cs (i + 1) in_string True last_valid_pos
      else if c = CHR 0x22 then
        (if in_string then scan_quotes cs (i + 1) False False i
         else scan_quotes cs (i + 1) True False last_valid_pos)
      else if \<not> in_string \<and> c \<in> set ''{}[],:'' then scan_quotes cs (i + 1) in_string False i
      else scan_quotes cs (i + 1) in_string False last_valid_pos)"

text \<open>\<open>s.rfind(c)\<close>: the index of the last \<open>c\<close> in \<open>s\<close>, or \<open>-1\<close>.\<close>

definition rfind :: "string \<Rightarrow> char \<Rightarrow> int" where
  "rfind s c =
     (if c \<in> set s then int (length s - 1 - length (takeWhile (\<lambda>x. x \<noteq> c) (rev s))) else - 1)"

definition key_tailoredScript :: string where
  "key_tailoredScript = ''\"tailoredScript\"''"

definition key_confidence :: string where
  "key_confidence = ''\"confidence\"''"

definition completion :: string where
  "completion = nl
     @ ''  \"confidence\": 0.8,'' @ nl
     @ ''  \"improvementAreas\": [\"truncated_response\"],'' @ nl
     @ ''  \"sectionBreakdown\": [],'' @ nl
     @ ''  \"sutherlandAlchemy\": {'' @ nl
     @ ''    \"explanation\": \"Response was truncated and recovered\",'' @ nl
     @ ''    \"valueReframing\": [],'' @ nl
     @ ''    \"identityShifts\": []'' @ nl
     @ ''  },'' @ nl
     @ ''  \"hormoziValueStack\": {'' @ nl
     @ ''    \"coreOffer\": \"Analysis incomplete due to truncation\",'' @ nl
     @ ''    \"valueElements\": [],'' @ nl
     @ ''    \"totalStack\": {},'' @ nl
     @ ''    \"grandSlamElements\": []'' @ nl
     @ ''  }'' @ nl
     @ ''}''"

text \<open>
  \<open>_complete_json_structure\<close>: it catches the \<open>JSONDecodeError\<close> of the decoder only;
  another exception leaves it.
\<close>

definition complete_json_structure ::
  "(string \<Rightarrow> py_exception + json) \<Rightarrow> string \<Rightarrow> string + string" where
  "complete_json_structure loads response =
     (case loads response of
        Inr v \<Rightarrow> Inr response
      | Inl JSONDecodeError \<Rightarrow>
          Inr (if str_in key_tailoredScript response \<and> \<not> str_in key_confidence response
               then rev (dropWhile (\<lambda>c. c = CHR '','') (rev (rstrip response))) @ '','' @ completion
               else response)
      | Inl (OtherError m) \<Rightarrow> Inl m)"

text \<open>
  \<open>_fix_unterminated_strings\<close>: its \<open>except Exception\<close> returns the text as it is when
  the exception arrives, which is the text with the closing quote.
\<close>

definition fix_unterminated_strings ::
  "(string \<Rightarrow> py_exception + json) \<Rightarrow> string \<Rightarrow> string" where
  "fix_unterminated_strings loads response =
     (let (in_string, last_valid_pos) = scan_quotes response 0 False False 0
      in if in_string then
           (let response_up_to_error = take (last_valid_pos + 1) response;
                last_sentence_end =
                  max (max (rfind response_up_to_error CHR ''.'')
                           (rfind response_up_to_error CHR ''!''))
                      (rfind response_up_to_error CHR ''?'');
                closed =
                  (if 0 < last_sentence_end
                   then take (nat (last_sentence_end + 1)) response_up_to_error @ [CHR 0x22]
                   else response_up_to_error @ [CHR 0x22])
            in if \<not> suffix ''}'' (rstrip closed) then
                 (case complete_json_structure loads closed of
                    Inr completed \<Rightarrow> completed
                  | Inl e \<Rightarrow> closed)
               else closed)
         else response)"

definition fix_common_json_issues ::
  "(string \<Rightarrow> py_exception + json) \<Rightarrow> string \<Rightarrow> string" where
  "fix_common_json_issues loads response =
     (let r1 = fix_unterminated_strings loads response;
          open_braces = count_list r1 CHR ''{'';
          close_braces = count_list r1 CHR ''}'';
          r2 = (if close_braces < open_braces
                then r1 @ replicate (open_braces - close_braces) CHR ''}'' else r1);
          open_brackets = count_list r2 CHR ''['';
          close_brackets = count_list r2 CHR '']''
      in if close_brackets < open_brackets
         then r2 @ replicate (open_brackets - close_brackets) CHR '']'' else r2)"

text \<open>
  The lines \<open>parse_ai_response\<close> logs on its way, which tell the path it took. The result
  is the dictionary returned, or the text of the exception that leaves the function: the
  first \<open>json.loads\<close> stands under \<open>except json.JSONDecodeError\<close> only.
\<close>

datatype log_event =
  ParsingSuccessful
| ParsingFailed
| AttemptingRecovery
| RecoveredPartial
| FixFailed
| UnexpectedFixError

definition parse_ai_response ::
  "(string \<Rightarrow> py_exception + json) \<Rightarrow> string \<Rightarrow> (string + json) \<times> log_event list" where
  "parse_ai_response loads ai_response =
     (let clean = clean_response ai_response
      in case loads clean of
           Inr parsed_data \<Rightarrow> (Inr parsed_data, [ParsingSuccessful])
         | Inl (OtherError m) \<Rightarrow> (Inl m, [])
         | Inl JSONDecodeError \<Rightarrow>
             (if str_in key_tailoredScript clean then
                (case loads (fix_common_json_issues loads clean) of
                   Inr parsed_result \<Rightarrow>
                     (Inr parsed_result, [ParsingFailed, AttemptingRecovery, RecoveredPartial])
                 | Inl JSONDecodeError \<Rightarrow>
                     (Inr fallback, [ParsingFailed, AttemptingRecovery, FixFailed])
                 | Inl (OtherError m) \<Rightarrow>
                     (Inr fallback, [ParsingFailed, AttemptingRecovery, UnexpectedFixError]))
              else (Inr fallback, [ParsingFailed])))"

text \<open>
  The shape of the answer asked from the model (the five fields of \<open>AITailoringData\<close> in
  \<open>models.py\<close> that come from it): a dictionary with a text, a number, a list and two
  dictionaries under these keys.
\<close>

definition tailoring_shaped :: "json \<Rightarrow> bool" where
  "tailoring_shaped v =
     (case v of
        JObject kvs \<Rightarrow>
          (case map_of kvs ''tailoredScript'' of Some (JString _) \<Rightarrow> True | _ \<Rightarrow> False)
          \<and> (case map_of kvs ''confidence'' of
                Some (JFloat _) \<Rightarrow> True | Some (JInt _) \<Rightarrow> True | _ \<Rightarrow> False)
          \<and> (case map_of kvs ''sectionBreakdown'' of Some (JArray _) \<Rightarrow> True | _ \<Rightarrow> False)
          \<and> (case map_of kvs ''sutherlandAlchemy'' of Some (JObject _) \<Rightarrow> True | _ \<Rightarrow> False)
          \<and> (case map_of kvs ''hormoziValueStack'' of Some (JObject _) \<Rightarrow> True | _ \<Rightarrow> False)
      | _ \<Rightarrow> False)"

section \<open>Result assembly (\<open>generate_tailored_script\<close> in \<open>ai_service.py\<close>)\<close>

record AITailoringRequest =
  originalTranscript :: string
  productDescription :: string

record SectionBreakdown =
  sectionName :: string
  triggerEmotionalState :: string
  originalQuote :: string
  rewrittenVersion :: string
  sceneDescription :: string
  psychologicalPrinciples :: "string list"
  timestamp :: string

record SutherlandAlchemy =
  explanation :: string
  valueReframing :: "(string \<times> json) list list"
  identityShifts :: "string list"

record HormoziValueStack =
  coreOffer :: string
  valueElements :: "(string \<times> json) list list"
  totalStack :: "(string \<times> json) list"
  grandSlamElements :: "string list"

record AITailoringData =
  tailoredScript :: string
  confidence :: real
  processingTime :: real
  wordCount :: nat
  estimatedReadTime :: string
  sectionBreakdown :: "SectionBreakdown list"
  sutherlandAlchemy :: SutherlandAlchemy
  hormoziValueStack :: HormoziValueStack

text \<open>
  The keyword arguments given to the constructor \<open>AITailoringData(...)\<close>: the values
  taken from the decoded answer are not validated yet. The validation of the constructor
  (pydantic) is a parameter \<open>validate\<close>, which gives the record or the text of its
  \<open>ValidationError\<close>.
\<close>

record tailoring_args =
  arg_tailoredScript :: json
  arg_confidence :: json
  arg_processingTime :: real
  arg_wordCount :: nat
  arg_estimatedReadTime :: string
  arg_sectionBreakdown :: json
  arg_sutherlandAlchemy :: json
  arg_hormoziValueStack :: json

text \<open>\<open>d.get(k, default)\<close> on a dictionary.\<close>

definition dict_get :: "(string \<times> json) list \<Rightarrow> string \<Rightarrow> json \<Rightarrow> json" where
  "dict_get kvs k dflt = (case map_of kvs k of Some v \<Rightarrow> v | None \<Rightarrow> dflt)"

definition type_name :: "json \<Rightarrow> string" where
  "type_name v =
     (case v of
        JNull \<Rightarrow> ''NoneType''
      | JBool _ \<Rightarrow> ''bool''
      | JInt _ \<Rightarrow> ''int''
      | JFloat _ \<Rightarrow> ''float''
      | JNaN \<Rightarrow> ''float''
      | JInfinity \<Rightarrow> ''float''
      | JNegInfinity \<Rightarrow> ''float''
      | JString _ \<Rightarrow> ''str''
      | JArray _ \<Rightarrow> ''list''
      | JObject _ \<Rightarrow> ''dict'')"

definition attribute_error :: "json \<Rightarrow> string \<Rightarrow> string" where
  "attribute_error v attr =
     [CHR 0x27] @ type_name v @ [CHR 0x27] @ '' object has no attribute ''
       @ [CHR 0x27] @ attr @ [CHR 0x27]"

text \<open>The arguments of the constructor, with the defaults of \<open>parsed_data.get\<close>.\<close>

definition tailoring_kwargs :: "(string \<times> json) list \<Rightarrow> metadata \<Rightarrow> real \<Rightarrow> tailoring_args" where
  "tailoring_kwargs parsed_data metadata processing_time =
     \<lparr>arg_tailoredScript = dict_get parsed_data ''tailoredScript'' (JString []),
      arg_confidence = dict_get parsed_data ''confidence'' (JFloat 0.8),
      arg_processingTime = processing_time,
      arg_wordCount = metadata.wordCount metadata,
      arg_estimatedReadTime = metadata.estimatedReadTime metadata,
      arg_sectionBreakdown = dict_get parsed_data ''sectionBreakdown'' (JArray []),
      arg_sutherlandAlchemy = dict_get parsed_data ''sutherlandAlchemy'' (JObject []),
      arg_hormoziValueStack = dict_get parsed_data ''hormoziValueStack'' (JObject [])\<rparr>"

text \<open>
  The body of the \<open>try\<close> after the answer is parsed: \<open>parsed_data.get\<close> needs a
  dictionary and \<open>tailored_script.split\<close> a text, else an \<open>AttributeError\<close> is raised.
\<close>

definition assemble ::
  "(tailoring_args \<Rightarrow> string + AITailoringData) \<Rightarrow> json \<Rightarrow> AITailoringRequest \<Rightarrow> real
     \<Rightarrow> string + AITailoringData" where
  "assemble validate parsed_data request processing_time =
     (case parsed_data of
        JObject kvs \<Rightarrow>
          (case dict_get kvs ''tailoredScript'' (JString []) of
             JString tailored_script \<Rightarrow>
               validate (tailoring_kwargs kvs
                 (calculate_metadata tailored_script (originalTranscript request) processing_time)
                 processing_time)
           | v \<Rightarrow> Inl (attribute_error v ''split''))
      | v \<Rightarrow> Inl (attribute_error v ''get''))"

text \<open>
  The call of the model under \<open>asyncio.wait_for\<close>: it completes with a text, or the wait
  gives up after \<open>REQUEST_TIMEOUT\<close> seconds, or the call raises an exception with the given
  text (which covers a completion without content).
\<close>

datatype api_outcome =
  Completed string
| TimedOut
| Raised string

definition REQUEST_TIMEOUT :: nat where
  "REQUEST_TIMEOUT = 60"

definition call_openai_api :: "api_outcome \<Rightarrow> string + string" where
  "call_openai_api outcome =
     (case outcome of
        Completed content \<Rightarrow> Inr content
      | TimedOut \<Rightarrow> Inl (''API call timed out after '' @ str_nat REQUEST_TIMEOUT @ '' seconds'')
      | Raised m \<Rightarrow> Inl m)"

definition error_data :: "string \<Rightarrow> real \<Rightarrow> AITailoringData" where
  "error_data e processing_time =
     \<lparr>tailoredScript = ''Error generating script: '' @ e,
      confidence = 0.0,
      processingTime = processing_time,
      wordCount = 0,
      estimatedReadTime = ''0s'',
      sectionBreakdown = [],
      sutherlandAlchemy =
        \<lparr>explanation = ''Error occurred during processing'',
         valueReframing = [],
         identityShifts = []\<rparr>,
      hormoziValueStack =
        \<lparr>coreOffer = ''Error in analysis'',
         valueElements = [],
         totalStack = [],
         grandSlamElements = []\<rparr>\<rparr>"

text \<open>
  \<open>generate_tailored_script\<close>: \<open>start_time\<close> is the clock at the start and \<open>end_time\<close>
  the clock where the processing time is taken, after the answer is parsed or in the
  \<open>except\<close> branch.
\<close>

definition generate_tailored_script ::
  "(tailoring_args \<Rightarrow> string + AITailoringData) \<Rightarrow> (string \<Rightarrow> py_exception + json)
     \<Rightarrow> api_outcome \<Rightarrow> AITailoringRequest \<Rightarrow> real \<Rightarrow> real \<Rightarrow> AITailoringData" where
  "generate_tailored_script validate loads outcome request start_time end_time =
     (let processing_time = end_time - start_time
      in case call_openai_api outcome of
           Inl e \<Rightarrow> error_data e processing_time
         | Inr ai_response \<Rightarrow>
             (case fst (parse_ai_response loads ai_response) of
                Inl e \<Rightarrow> error_data e processing_time
              | Inr parsed_data \<Rightarrow>
                  (case assemble validate parsed_data request processing_time of
                     Inl e \<Rightarrow> error_data e processing_time
                   | Inr data \<Rightarrow> data)))"

text \<open>The value under a key of a decoded dictionary, if there is one.\<close>

definition json_get :: "json \<Rightarrow> string \<Rightarrow> json option" where
  "json_get v k = (case v of JObject kvs \<Rightarrow> map_of kvs k | _ \<Rightarrow> None)"

text \<open>
  The constructor \<open>AITailoringData(...)\<close> of \<open>models.py\<close>. The nested models
  \<open>SutherlandAlchemy\<close> and \<open>HormoziValueStack\<close> declare each of their fields without a
  default, so each field is required: a nested block that is no dictionary, or that lacks
  one of these keys, fails the validation, and the constructor raises a \<open>ValidationError\<close>.
  The text of that error is the parameter \<open>render\<close>; what the validation does with
  arguments whose nested blocks have their keys is the parameter \<open>rest\<close>.
\<close>

definition SutherlandAlchemy_fields :: "string list" where
  "SutherlandAlchemy_fields = [''explanation'', ''valueReframing'', ''identityShifts'']"

definition HormoziValueStack_fields :: "string list" where
  "HormoziValueStack_fields =
     [''coreOffer'', ''valueElements'', ''totalStack'', ''grandSlamElements'']"

definition has_fields :: "string list \<Rightarrow> json \<Rightarrow> bool" where
  "has_fields required v =
     (case v of
        JObject kvs \<Rightarrow> list_all (\<lambda>k. map_of kvs k \<noteq> None) required
      | _ \<Rightarrow> False)"

definition construct_AITailoringData ::
  "(tailoring_args \<Rightarrow> string) \<Rightarrow> (tailoring_args \<Rightarrow> string + AITailoringData)
     \<Rightarrow> tailoring_args \<Rightarrow> string + AITailoringData" where
  "construct_AITailoringData render rest args =
     (if has_fields SutherlandAlchemy_fields (arg_sutherlandAlchemy args)
         \<and> has_fields HormoziValueStack_fields (arg_hormoziValueStack args)
      then rest args
      else Inl (render args))"

section \<open>Valid answers pass through the salvage engine\<close>

lemma lstrip_ws:
  assumes "\<forall>c\<in>set w. isspace c" "b \<noteq> []" "\<not> isspace (hd b)"
  shows "lstrip (w @ b @ r) = b @ r"
proof -
  have "dropWhile isspace (w @ b @ r) = dropWhile isspace (b @ r)"
    using assms(1) by (simp add: dropWhile_append2)
  also have "\<dots> = b @ r" using assms(2,3) by (cases b) simp_all
  finally show ?thesis by (simp add: lstrip_def)
qed

lemma rstrip_ws:
  assumes "\<forall>c\<in>set w. isspace c" "b \<noteq> []" "\<not> isspace (last b)"
  shows "rstrip (l @ b @ w) = l @ b"
proof -
  have "dropWhile isspace (rev w @ rev b @ rev l) = dropWhile isspace (rev b @ rev l)"
    using assms(1) by (intro dropWhile_append2) simp
  also have "\<dots> = rev b @ rev l"
    using assms(2,3) by (cases "rev b") (simp_all add: last_rev[symmetric] del: last_rev)
  finally show ?thesis by (simp add: rstrip_def)
qed

lemma strip_ws:
  assumes "\<forall>c\<in>set w0. isspace c" "\<forall>c\<in>set w3. isspace c"
    "b \<noteq> []" "\<not> isspace (hd b)" "\<not> isspace (last b)"
  shows "strip (w0 @ b @ w3) = b"
  using lstrip_ws[OF assms(1,3,4), of w3] rstrip_ws[OF assms(2,3,5), of "[]"]
  by (simp add: strip_def)

lemma not_space_backtick: "\<not> isspace CHR ''`''"
  by (simp add: isspace_def)

lemma clean_plain:
  assumes "\<forall>c\<in>set w0. isspace c" "\<forall>c\<in>set w3. isspace c"
    "b \<noteq> []" "\<not> isspace (hd b)" "\<not> isspace (last b)" "\<not> prefix ''```'' b"
  shows "clean_response (w0 @ b @ w3) = b"
proof -
  have s: "strip (w0 @ b @ w3) = b" using assms(1-5) by (rule strip_ws)
  have "\<not> prefix ''```json'' b"
    using assms(6) by (metis append.simps(1,2) prefix_order.trans prefixI)
  then show ?thesis using assms(6) by (simp add: clean_response_def s Let_def)
qed


lemma sub_trailing_fence:
  assumes "\<forall>c\<in>set w2. isspace c" "b \<noteq> []" "\<not> isspace (last b)"
  shows "sub_trailing (b @ w2 @ ''```'') = b"
proof -
  have suf: "suffix ''```'' (b @ w2 @ ''```'')"
    by (metis append.assoc suffixI)
  have tk: "take (length (b @ w2 @ ''```'') - 3) (b @ w2 @ ''```'') = b @ w2" by simp
  have "rstrip (b @ w2) = b" using rstrip_ws[OF assms, of "[]"] by simp
  then show ?thesis unfolding sub_trailing_def using suf tk by (simp only: if_True)
qed

lemma clean_fenced_json:
  assumes "\<forall>c\<in>set w0. isspace c" "\<forall>c\<in>set w1. isspace c" "\<forall>c\<in>set w2. isspace c"
    "\<forall>c\<in>set w3. isspace c" "b \<noteq> []" "\<not> isspace (hd b)" "\<not> isspace (last b)"
  shows "clean_response (w0 @ ''```json'' @ w1 @ b @ w2 @ ''```'' @ w3) = b"
proof -
  let ?f = "''```json'' @ w1 @ b @ w2 @ ''```''"
  have s: "strip (w0 @ ?f @ w3) = ?f"
    by (rule strip_ws[OF assms(1,4)]) (simp_all add: not_space_backtick)
  have p: "prefix ''```json'' ?f" by simp
  have l: "sub_leading ''```json'' ?f = b @ w2 @ ''```''"
    using lstrip_ws[OF assms(2,5,6), of "w2 @ ''```''"] by (simp add: sub_leading_def lstrip_def)
  have "clean_response (w0 @ ?f @ w3) = b"
    unfolding clean_response_def Let_def s if_P[OF p] l
    using assms(3,5,7) by (rule sub_trailing_fence)
  then show ?thesis by simp
qed

lemma clean_fenced:
  assumes "\<forall>c\<in>set w0. isspace c" "\<forall>c\<in>set w1. isspace c" "\<forall>c\<in>set w2. isspace c"
    "\<forall>c\<in>set w3. isspace c" "b \<noteq> []" "\<not> isspace (hd b)" "\<not> isspace (last b)"
    "hd b \<noteq> CHR ''j''"
  shows "clean_response (w0 @ ''```'' @ w1 @ b @ w2 @ ''```'' @ w3) = b"
proof -
  let ?f = "''```'' @ w1 @ b @ w2 @ ''```''"
  have s: "strip (w0 @ ?f @ w3) = ?f"
    by (rule strip_ws[OF assms(1,4)]) (simp_all add: not_space_backtick)
  have hj: "hd (w1 @ b @ w2 @ ''```'') \<noteq> CHR ''j''"
  proof (cases w1)
    case Nil then show ?thesis using assms(5,8) by simp
  next
    case (Cons c cs)
    then have "isspace c" using assms(2) by simp
    then have "c \<noteq> CHR ''j''" by (auto simp: isspace_def)
    then show ?thesis using Cons by simp
  qed
  have np: "\<not> prefix ''```json'' ?f"
  proof
    assume "prefix ''```json'' ?f"
    then have "prefix ''json'' (w1 @ b @ w2 @ ''```'')" by simp
    then obtain r where "w1 @ b @ w2 @ ''```'' = ''json'' @ r" by (auto simp: prefix_def)
    then have "hd (w1 @ b @ w2 @ ''```'') = CHR ''j''" by simp
    with hj show False by simp
  qed
  have p: "prefix ''```'' ?f" by simp
  have l: "sub_leading ''```'' ?f = b @ w2 @ ''```''"
    using lstrip_ws[OF assms(2,5,6), of "w2 @ ''```''"] by (simp add: sub_leading_def lstrip_def)
  have "clean_response (w0 @ ?f @ w3) = b"
    unfolding clean_response_def Let_def s if_not_P[OF np] if_P[OF p] l
    using assms(3,5,7) by (rule sub_trailing_fence)
  then show ?thesis by simp
qed

lemma parse_direct:
  "loads (clean_response s) = Inr v \<Longrightarrow> parse_ai_response loads s = (Inr v, [ParsingSuccessful])"
  by (simp add: parse_ai_response_def Let_def)


text \<open>
  Claim C1. When the text left after the fences are stripped decodes, the engine returns
  the decoded structure as it is and logs the successful parse only: no repair step runs.
  This holds for a text \<open>body\<close> between whitespace, for \<open>body\<close> in a fence that starts with
  \<open>```json\<close>, and for \<open>body\<close> in a plain fence, where \<open>body\<close> starts and ends like a JSON
  text (no whitespace at its ends, no fence and no letter j at its start); and it holds
  for every input whose cleaned text decodes.
\<close>

theorem valid_json_returned_unchanged:
  assumes dec: "loads body = Inr v"
    and ws: "\<forall>c\<in>set (w0 @ w1 @ w2 @ w3). isspace c"
    and body: "body \<noteq> []" "\<not> isspace (hd body)" "\<not> isspace (last body)"
      "\<not> prefix ''```'' body" "hd body \<noteq> CHR ''j''"
  shows "parse_ai_response loads (w0 @ body @ w3) = (Inr v, [ParsingSuccessful]) \<and>
    parse_ai_response loads (w0 @ ''```json'' @ w1 @ body @ w2 @ ''```'' @ w3)
      = (Inr v, [ParsingSuccessful]) \<and>
    parse_ai_response loads (w0 @ ''```'' @ w1 @ body @ w2 @ ''```'' @ w3)
      = (Inr v, [ParsingSuccessful]) \<and>
    (\<forall>s u. loads (clean_response s) = Inr u \<longrightarrow>
       parse_ai_response loads s = (Inr u, [ParsingSuccessful]))"
proof -
  have w: "\<forall>c\<in>set w0. isspace c" "\<forall>c\<in>set w1. isspace c" "\<forall>c\<in>set w2. isspace c"
    "\<forall>c\<in>set w3. isspace c"
    using ws by auto
  have c1: "clean_response (w0 @ body @ w3) = body"
    using w(1,4) body(1-4) by (rule clean_plain)
  have c2: "clean_response (w0 @ ''```json'' @ w1 @ body @ w2 @ ''```'' @ w3) = body"
    using w body(1-3) by (rule clean_fenced_json)
  have c3: "clean_response (w0 @ ''```'' @ w1 @ body @ w2 @ ''```'' @ w3) = body"
    using w body(1-3,5) by (rule clean_fenced)
  have p1: "parse_ai_response loads (w0 @ body @ w3) = (Inr v, [ParsingSuccessful])"
    by (rule parse_direct) (simp only: c1 dec)
  have p2: "parse_ai_response loads (w0 @ ''```json'' @ w1 @ body @ w2 @ ''```'' @ w3)
      = (Inr v, [ParsingSuccessful])"
    by (rule parse_direct) (simp only: c2 dec)
  have p3: "parse_ai_response loads (w0 @ ''```'' @ w1 @ body @ w2 @ ''```'' @ w3)
      = (Inr v, [ParsingSuccessful])"
    by (rule parse_direct) (simp only: c3 dec)
  have p4: "\<forall>s u. loads (clean_response s) = Inr u \<longrightarrow>
       parse_ai_response loads s = (Inr u, [ParsingSuccessful])"
    using parse_direct by blast
  show ?thesis by (intro conjI p1 p2 p3 p4)
qed

theorem valid_json_returned_unchanged_witness:
  "json_loads ''{\"tailoredScript\": \"Hi\"}'' = Inr (JObject [(''tailoredScript'', JString ''Hi'')]) \<and>
   parse_ai_response json_loads ('' '' @ ''{\"tailoredScript\": \"Hi\"}'' @ nl)
     = (Inr (JObject [(''tailoredScript'', JString ''Hi'')]), [ParsingSuccessful]) \<and>
   parse_ai_response json_loads
       ('' '' @ ''```json'' @ nl @ ''{\"tailoredScript\": \"Hi\"}'' @ nl @ ''```'' @ nl)
     = (Inr (JObject [(''tailoredScript'', JString ''Hi'')]), [ParsingSuccessful]) \<and>
   parse_ai_response json_loads
       ('' '' @ ''```'' @ nl @ ''{\"tailoredScript\": \"Hi\"}'' @ nl @ ''```'' @ nl)
     = (Inr (JObject [(''tailoredScript'', JString ''Hi'')]), [ParsingSuccessful])"
proof -
  have dec: "json_loads ''{\"tailoredScript\": \"Hi\"}''
      = Inr (JObject [(''tailoredScript'', JString ''Hi'')])"
    by code_simp
  have ws: "\<forall>c\<in>set ('' '' @ nl @ nl @ nl). isspace c"
    by (simp add: nl_def isspace_def)
  have b: "''{\"tailoredScript\": \"Hi\"}'' \<noteq> []"
    "\<not> isspace (hd ''{\"tailoredScript\": \"Hi\"}'')"
    "\<not> isspace (last ''{\"tailoredScript\": \"Hi\"}'')"
    "\<not> prefix ''```'' ''{\"tailoredScript\": \"Hi\"}''"
    "hd ''{\"tailoredScript\": \"Hi\"}'' \<noteq> CHR ''j''"
    by (simp_all add: isspace_def)
  from valid_json_returned_unchanged[of json_loads "''{\"tailoredScript\": \"Hi\"}''"
      "JObject [(''tailoredScript'', JString ''Hi'')]" "'' ''" nl nl nl, OF dec ws b] dec
  show ?thesis by blast
qed

section \<open>The fallback of the salvage engine\<close>

lemma str_in_sublist: "str_in pat s \<longleftrightarrow> sublist pat s"
  by (induction s) (auto simp: sublist_Cons_right)

lemma sublist_rstrip: "sublist (rstrip s) s"
proof -
  have "sublist (dropWhile isspace (rev s)) (rev s)" by (rule sublist_dropWhile)
  then show ?thesis unfolding rstrip_def by (simp add: sublist_rev_left)
qed

lemma sublist_strip: "sublist (strip s) s"
  unfolding strip_def lstrip_def
  using sublist_rstrip sublist_dropWhile sublist_order.order.trans by blast

lemma sublist_sub_leading: "sublist (sub_leading f s) s"
proof -
  have "sublist (dropWhile isspace (drop (length f) s)) (drop (length f) s)"
    by (rule sublist_dropWhile)
  then have "sublist (dropWhile isspace (drop (length f) s)) s"
    using sublist_drop sublist_order.order.trans by blast
  then show ?thesis by (simp add: sub_leading_def)
qed

lemma sublist_snoc_other:
  assumes "sublist k (x @ [c])" "k \<noteq> []" "last k \<noteq> c"
  shows "sublist k x"
proof -
  obtain ps ss where e: "x @ [c] = ps @ k @ ss" using assms(1) by (auto simp: sublist_def)
  show ?thesis
  proof (cases ss rule: rev_cases)
    case Nil
    then have "last (x @ [c]) = last k" using e assms(2) by simp
    then show ?thesis using assms(3) by simp
  next
    case (snoc ss' d)
    then have "x @ [c] = (ps @ k @ ss') @ [d]" using e by simp
    then have "x = ps @ k @ ss'" by (simp only: append1_eq_conv)
    then show ?thesis by (auto simp: sublist_def)
  qed
qed

lemma key_sub_trailing:
  assumes "sublist key_tailoredScript (sub_trailing s)"
  shows "sublist key_tailoredScript s"
proof -
  have k: "key_tailoredScript \<noteq> []" "last key_tailoredScript \<noteq> CHR 0x0A"
    by (simp_all add: key_tailoredScript_def)
  consider (a) "suffix ''```'' s" | (b) "\<not> suffix ''```'' s" "suffix (''```'' @ nl) s"
    | (c) "\<not> suffix ''```'' s" "\<not> suffix (''```'' @ nl) s" by blast
  then show ?thesis
  proof cases
    case a
    then have "sublist key_tailoredScript (rstrip (take (length s - 3) s))"
      using assms by (simp add: sub_trailing_def)
    then show ?thesis
      using sublist_rstrip sublist_take sublist_order.order.trans by blast
  next
    case b
    then have "sublist key_tailoredScript (rstrip (take (length s - 4) s) @ [CHR 0x0A])"
      using assms by (simp add: sub_trailing_def nl_def)
    then have "sublist key_tailoredScript (rstrip (take (length s - 4) s))"
      using k by (rule sublist_snoc_other)
    then show ?thesis
      using sublist_rstrip sublist_take sublist_order.order.trans by blast
  next
    case c
    then show ?thesis using assms by (simp add: sub_trailing_def)
  qed
qed

lemma key_clean_response:
  assumes "str_in key_tailoredScript (clean_response s)"
  shows "str_in key_tailoredScript s"
proof -
  have a: "sublist key_tailoredScript (clean_response s)" using assms by (simp add: str_in_sublist)
  have "sublist key_tailoredScript (strip s)"
  proof (cases "prefix ''```json'' (strip s)")
    case True
    then have "sublist key_tailoredScript (sub_trailing (sub_leading ''```json'' (strip s)))"
      using a by (simp add: clean_response_def Let_def)
    then have "sublist key_tailoredScript (sub_leading ''```json'' (strip s))"
      by (rule key_sub_trailing)
    then show ?thesis using sublist_sub_leading sublist_order.order.trans by blast
  next
    case False
    show ?thesis
    proof (cases "prefix ''```'' (strip s)")
      case True
      then have "sublist key_tailoredScript (sub_trailing (sub_leading ''```'' (strip s)))"
        using a False by (simp add: clean_response_def Let_def)
      then have "sublist key_tailoredScript (sub_leading ''```'' (strip s))"
        by (rule key_sub_trailing)
      then show ?thesis using sublist_sub_leading sublist_order.order.trans by blast
    next
      case F2: False
      then show ?thesis using a False by (simp add: clean_response_def Let_def)
    qed
  qed
  then have "sublist key_tailoredScript s"
    using sublist_strip sublist_order.order.trans by blast
  then show ?thesis by (simp add: str_in_sublist)
qed


text \<open>
  Claim C2, amended. For every input that does not contain the key \<open>"tailoredScript"\<close>
  and whose fence-stripped text does not decode, the engine returns the fixed fallback:
  \<open>tailoredScript\<close> is a user-facing error text, \<open>confidence\<close> is 0.1, \<open>improvementAreas\<close>
  holds the one entry \<open>parsing_error\<close>, and every other list or dictionary in it is empty.
\<close>

theorem missing_key_gives_fallback:
  assumes "loads (clean_response s) = Inl JSONDecodeError"
    and "\<not> str_in key_tailoredScript s"
  shows "parse_ai_response loads s = (Inr fallback, [ParsingFailed]) \<and>
    json_get fallback ''tailoredScript''
      = Some (JString ''Error: Could not parse AI response. Please try again.'') \<and>
    json_get fallback ''confidence'' = Some (JFloat 0.1) \<and>
    json_get fallback ''improvementAreas'' = Some (JArray [JString ''parsing_error'']) \<and>
    json_get fallback ''sectionBreakdown'' = Some (JArray []) \<and>
    json_get fallback ''sutherlandAlchemy''
      = Some (JObject [(''explanation'', JString ''Error in parsing response''),
                       (''valueReframing'', JArray []),
                       (''identityShifts'', JArray [])]) \<and>
    json_get fallback ''hormoziValueStack''
      = Some (JObject [(''coreOffer'', JString ''Error in analysis''),
                       (''valueElements'', JArray []),
                       (''totalStack'', JObject []),
                       (''grandSlamElements'', JArray [])])"
proof -
  have "\<not> str_in key_tailoredScript (clean_response s)"
    using assms(2) key_clean_response by blast
  then have "parse_ai_response loads s = (Inr fallback, [ParsingFailed])"
    using assms(1) by (simp add: parse_ai_response_def Let_def)
  then show ?thesis by (simp add: json_get_def fallback_def)
qed

theorem missing_key_gives_fallback_witness:
  "json_loads (clean_response ''not json'') = Inl JSONDecodeError \<and>
   \<not> str_in key_tailoredScript ''not json'' \<and>
   parse_ai_response json_loads ''not json'' = (Inr fallback, [ParsingFailed])"
proof -
  have a: "json_loads (clean_response ''not json'') = Inl JSONDecodeError" by code_simp
  have b: "\<not> str_in key_tailoredScript ''not json''" by code_simp
  from missing_key_gives_fallback[of json_loads "''not json''", OF a b] a b
  show ?thesis by blast
qed

text \<open>
  The claim C2 as stated fails: the text \<open>{}\<close> lacks the key, decodes, and comes back as
  the empty dictionary, not as the fallback; and the fallback has an entry in
  \<open>improvementAreas\<close>.
\<close>

theorem missing_key_counterexample:
  "\<not> str_in key_tailoredScript ''{}'' \<and>
   fst (parse_ai_response json_loads ''{}'') = Inr (JObject []) \<and>
   JObject [] \<noteq> fallback \<and>
   json_get fallback ''improvementAreas'' = Some (JArray [JString ''parsing_error''])"
proof -
  have a: "\<not> str_in key_tailoredScript ''{}''" by code_simp
  have b: "fst (parse_ai_response json_loads ''{}'') = Inr (JObject [])" by code_simp
  have c: "JObject [] \<noteq> fallback" by (simp add: fallback_def)
  have d: "json_get fallback ''improvementAreas'' = Some (JArray [JString ''parsing_error''])"
    by (simp add: json_get_def fallback_def)
  show ?thesis by (intro conjI a b c d)
qed

section \<open>The repair of an unterminated string\<close>

text \<open>
  Claim C3 at a truncated answer. The text \<open>{"tailoredScript": "Hello world. This is trunc\<close>
  holds the key and ends inside the string of the script. The scan ends inside a string
  with \<open>last_valid_pos\<close> at the colon, before the string opened, so the repair cuts the
  whole script off and the quote it appends opens a string; the completion is appended
  inside it, the repaired text does not decode, and the engine returns the fallback, whose
  \<open>tailoredScript\<close> is the error text and no prefix of the script.
\<close>

theorem truncated_script_falls_back:
  "scan_quotes ''{\"tailoredScript\": \"Hello world. This is trunc'' 0 False False 0 = (True, 17) \<and>
   fix_unterminated_strings json_loads ''{\"tailoredScript\": \"Hello world. This is trunc''
     = ''{\"tailoredScript\":\",'' @ completion \<and>
   json_loads (fix_common_json_issues json_loads
       ''{\"tailoredScript\": \"Hello world. This is trunc'') = Inl JSONDecodeError \<and>
   parse_ai_response json_loads ''{\"tailoredScript\": \"Hello world. This is trunc''
     = (Inr fallback, [ParsingFailed, AttemptingRecovery, FixFailed]) \<and>
   json_get fallback ''tailoredScript''
     = Some (JString ''Error: Could not parse AI response. Please try again.'')"
  by code_simp

section \<open>The salvage engine always returns\<close>

lemma json_loads_decode_error: "json_loads t \<noteq> Inl (OtherError m)"
  by (simp add: json_loads_def split: option.splits)

text \<open>
  Claim C4, amended. When the decode of the fence-stripped text raises nothing but a
  \<open>JSONDecodeError\<close>, \<open>parse_ai_response\<close> raises nothing and returns the decoded value of
  the fence-stripped text, or the decoded value of the repaired text, or the fallback; this
  holds also when the decoder raises another exception inside the repair. The fallback
  has the shape of the schema; a decoded value is returned as it is.
\<close>

theorem parse_ai_response_returns:
  assumes "\<forall>m. loads (clean_response s) \<noteq> Inl (OtherError m)"
  shows "(\<exists>v. fst (parse_ai_response loads s) = Inr v \<and>
            (loads (clean_response s) = Inr v
             \<or> loads (fix_common_json_issues loads (clean_response s)) = Inr v
             \<or> v = fallback)) \<and>
         tailoring_shaped fallback"
proof -
  have f: "tailoring_shaped fallback" by (simp add: tailoring_shaped_def fallback_def)
  have "\<exists>v. fst (parse_ai_response loads s) = Inr v \<and>
            (loads (clean_response s) = Inr v
             \<or> loads (fix_common_json_issues loads (clean_response s)) = Inr v
             \<or> v = fallback)"
  proof (cases "loads (clean_response s)")
    case (Inr v)
    then show ?thesis by (simp add: parse_ai_response_def Let_def)
  next
    case (Inl e)
    then have e: "e = JSONDecodeError" using assms by (cases e) auto
    show ?thesis
    proof (cases "str_in key_tailoredScript (clean_response s)")
      case False
      then show ?thesis using Inl e by (simp add: parse_ai_response_def Let_def)
    next
      case True
      show ?thesis
      proof (cases "loads (fix_common_json_issues loads (clean_response s))")
        case (Inr v)
        then show ?thesis using Inl e True by (simp add: parse_ai_response_def Let_def)
      next
        case I2: (Inl e2)
        then show ?thesis using Inl e True
          by (cases e2) (simp_all add: parse_ai_response_def Let_def)
      qed
    qed
  qed
  with f show ?thesis by blast
qed

theorem parse_ai_response_returns_witness:
  "(\<forall>m. json_loads (clean_response ''{\"tailoredScript\": \"Hi'') \<noteq> Inl (OtherError m)) \<and>
   fst (parse_ai_response json_loads ''{\"tailoredScript\": \"Hi'') = Inr fallback"
proof -
  have a: "\<forall>m. json_loads (clean_response ''{\"tailoredScript\": \"Hi'') \<noteq> Inl (OtherError m)"
    using json_loads_decode_error by blast
  have b: "json_loads (clean_response ''{\"tailoredScript\": \"Hi'') \<noteq> Inr fallback"
    "json_loads (fix_common_json_issues json_loads (clean_response ''{\"tailoredScript\": \"Hi''))
       \<noteq> Inr fallback"
    by code_simp+
  from parse_ai_response_returns[of json_loads "''{\"tailoredScript\": \"Hi''", OF a]
  obtain v where v: "fst (parse_ai_response json_loads ''{\"tailoredScript\": \"Hi'') = Inr v"
    "json_loads (clean_response ''{\"tailoredScript\": \"Hi'') = Inr v
       \<or> json_loads (fix_common_json_issues json_loads (clean_response ''{\"tailoredScript\": \"Hi'')) = Inr v
       \<or> v = fallback" by blast
  have c: "json_loads (clean_response ''{\"tailoredScript\": \"Hi'') = Inl JSONDecodeError"
    "json_loads (fix_common_json_issues json_loads (clean_response ''{\"tailoredScript\": \"Hi''))
       = Inl JSONDecodeError"
    by code_simp+
  have "v = fallback" using v(2) c by simp
  with v(1) a show ?thesis by blast
qed

text \<open>
  The claim C4 as stated fails: the text \<open>42\<close> decodes, and the engine returns the number,
  which is no dictionary.
\<close>

theorem parse_ai_response_shape_counterexample:
  "fst (parse_ai_response json_loads ''42'') = Inr (JInt 42) \<and> \<not> tailoring_shaped (JInt 42)"
proof -
  have a: "fst (parse_ai_response json_loads ''42'') = Inr (JInt 42)" by code_simp
  have b: "\<not> tailoring_shaped (JInt 42)" by (simp add: tailoring_shaped_def)
  show ?thesis by (intro conjI a b)
qed

section \<open>The retry loop\<close>

lemma low_supported: "reliability (detect_platform url) = ''low'' \<Longrightarrow> supported (detect_platform url)"
  by (simp add: detect_platform_def Let_def split: if_splits)

lemma retry_loop_returns:
  "int attempt < max_retries \<Longrightarrow>
   \<exists>r sl. retry_loop supadata url lang text mode info max_retries attempt sleeps = (Some r, sl)
        \<and> error_code r \<noteq> Some ''UNKNOWN_ERROR''"
proof (induction supadata url lang "text" mode info max_retries attempt sleeps rule: retry_loop.induct)
  case (1 sp u l t m i mx attempt sl)
  show ?case
  proof (cases "int attempt = mx - 1")
    case True
    then show ?thesis using "1.prems"
      by (subst retry_loop.simps) (simp split: response.splits option.splits)
  next
    case False
    then have nxt: "int (Suc attempt) < mx" using "1.prems" by simp
    show ?thesis
    proof (cases "sp u l t m attempt")
      case (Content a b)
      then show ?thesis using "1.prems" by (subst retry_loop.simps) simp
    next
      case (Job a)
      then show ?thesis using "1.prems" by (subst retry_loop.simps) simp
    next
      case (SupadataError msg)
      show ?thesis
        using "1.IH"(1)[OF "1.prems" SupadataError _ False nxt] "1.prems" SupadataError False
        by (subst retry_loop.simps) (auto split: option.splits if_splits)
    next
      case (OtherException e)
      show ?thesis
        using "1.IH"(2)[OF "1.prems" OtherException False nxt] "1.prems" OtherException False
        by (subst retry_loop.simps) simp
    qed
  qed
qed


text \<open>
  Claim C6. With a retry budget of at least 1 the loop never runs out: it returns a
  result from inside, so the fallback with code \<open>UNKNOWN_ERROR\<close> after the loop is never
  the result of the fetcher.
\<close>

theorem unknown_error_unreachable:
  assumes "1 \<le> max_retries"
  shows "(\<exists>r sl. retry_loop supadata url lang txt mode info max_retries 0 [] = (Some r, sl)) \<and>
         error_code (fst (transcribe_with_retry supadata url lang txt mode max_retries))
           \<noteq> Some ''UNKNOWN_ERROR''"
proof -
  have a: "int 0 < max_retries" using assms by simp
  have b: "int 0 < max max_retries 5" by simp
  obtain r sl where r: "retry_loop supadata url lang txt mode info max_retries 0 [] = (Some r, sl)"
    using retry_loop_returns[OF a] by blast
  obtain r1 sl1 where r1:
    "retry_loop supadata url lang txt mode (detect_platform url) max_retries 0 [] = (Some r1, sl1)"
    "error_code r1 \<noteq> Some ''UNKNOWN_ERROR''"
    using retry_loop_returns[OF a] by blast
  obtain r2 sl2 where r2:
    "retry_loop supadata url lang txt mode (detect_platform url) (max max_retries 5) 0 [] = (Some r2, sl2)"
    "error_code r2 \<noteq> Some ''UNKNOWN_ERROR''"
    using retry_loop_returns[OF b] by blast
  have "error_code (fst (transcribe_with_retry supadata url lang txt mode max_retries))
           \<noteq> Some ''UNKNOWN_ERROR''"
    using r1 r2 by (simp add: transcribe_with_retry_def Let_def)
  with r show ?thesis by blast
qed

theorem unknown_error_unreachable_witness:
  "error_code (fst (transcribe_with_retry (\<lambda>u l t m n. OtherException ''boom'')
      ''https://youtu.be/abc'' ''en'' True ''auto'' 1)) = Some ''UNEXPECTED_ERROR''"
proof -
  have "error_code (fst (transcribe_with_retry (\<lambda>u l t m n. OtherException ''boom'')
      ''https://youtu.be/abc'' ''en'' True ''auto'' 1)) \<noteq> Some ''UNKNOWN_ERROR''"
    using unknown_error_unreachable[of 1] by simp
  then show ?thesis
    by (simp add: transcribe_with_retry_def detect_platform_def lower_def lower_char_def
        retry_loop.simps Let_def)
qed

lemma rate_limit_step:
  assumes "int attempt < B" "supadata url lang txt mode attempt = SupadataError msg"
    "str_in ''status 429'' msg"
  shows "retry_loop supadata url lang txt mode info B attempt sleeps =
     (if int attempt = B - 1 then
        (Some (Error url (platform info)
           \<lparr>code = ''TRANSCRIPTION_FAILED'',
            message = ''Failed to transcribe '' @ platform info @ '' video after ''
              @ str_int B @ '' attempts: '' @ msg,
            details = msg,
            platform_recommendation = Some (recommendation info)\<rparr>), sleeps @ [5 * 2 ^ attempt])
      else retry_loop supadata url lang txt mode info B (Suc attempt) (sleeps @ [5 * 2 ^ attempt]))"
  using assms by (subst retry_loop.simps) (simp add: mult.commute)

lemma all_rate_limited:
  assumes "\<forall>a. int a < B \<longrightarrow> (\<exists>msg. supadata url lang txt mode a = SupadataError msg \<and> str_in ''status 429'' msg)"
  shows "int attempt < B \<Longrightarrow>
    \<exists>r. retry_loop supadata url lang txt mode info B attempt sleeps =
           (Some r, sleeps @ map (\<lambda>n. 5 * 2 ^ n) [attempt..<nat B])
         \<and> error_code r = Some ''TRANSCRIPTION_FAILED''"
proof (induction "nat B - attempt" arbitrary: attempt sleeps)
  case 0
  then show ?case by simp
next
  case (Suc k)
  obtain msg where m: "supadata url lang txt mode attempt = SupadataError msg" "str_in ''status 429'' msg"
    using assms Suc.prems by blast
  note step = rate_limit_step[of "attempt" "B" "supadata" "url" "lang" "txt" "mode" "msg" "info" "sleeps", OF Suc.prems m]
  show ?case
  proof (cases "int attempt = B - 1")
    case True
    have nb: "nat B = Suc attempt" using True by linarith
    have u1: "[attempt..<nat B] = [attempt]" unfolding nb by simp
    show ?thesis unfolding step u1 using True by simp
  next
    case False
    then have lt: "int (Suc attempt) < B" using Suc.prems by simp
    have k: "k = nat B - Suc attempt" using Suc.hyps(2) by simp
    have u: "[attempt..<nat B] = attempt # [Suc attempt..<nat B]"
      using Suc.prems by (simp add: upt_rec)
    obtain r where r: "retry_loop supadata url lang txt mode info B (Suc attempt) (sleeps @ [5 * 2 ^ attempt])
        = (Some r, (sleeps @ [5 * 2 ^ attempt]) @ map (\<lambda>n. 5 * 2 ^ n) [Suc attempt..<nat B])"
      "error_code r = Some ''TRANSCRIPTION_FAILED''"
      using Suc.hyps(1)[OF k lt, of "sleeps @ [5 * 2 ^ attempt]"] by blast
    show ?thesis unfolding step u using False r by simp
  qed
qed


text \<open>
  Claim C5. For a URL of a platform of low reliability the loop runs with the budget
  \<open>max max_retries 5\<close>, at least 5 attempts. A rate-limit error (a \<open>SupadataError\<close> whose
  text contains \<open>status 429\<close>) at the attempt of index \<open>attempt\<close>, the attempt number
  \<open>attempt + 1\<close>, makes the loop sleep \<open>5 * 2 ^ attempt\<close> seconds; then it goes on with the
  next attempt, or, when this was the last attempt of the budget, it returns the error with
  code \<open>TRANSCRIPTION_FAILED\<close>. When every attempt is rate limited the sleeps are 5, 10,
  20, 40, 80, ... seconds, one per attempt of the budget.
\<close>

theorem low_reliability_rate_limit_backoff:
  assumes low: "reliability (detect_platform url) = ''low''"
  shows "5 \<le> max max_retries 5 \<and>
    (\<exists>r sl. retry_loop supadata url lang txt mode (detect_platform url) (max max_retries 5) 0 []
               = (Some r, sl)
            \<and> transcribe_with_retry supadata url lang txt mode max_retries = (r, sl)) \<and>
    (\<forall>attempt msg sleeps.
       int attempt < max max_retries 5 \<and> supadata url lang txt mode attempt = SupadataError msg
         \<and> str_in ''status 429'' msg \<longrightarrow>
       retry_loop supadata url lang txt mode (detect_platform url) (max max_retries 5) attempt sleeps =
         (if int attempt = max max_retries 5 - 1 then
            (Some (Error url (platform (detect_platform url))
               \<lparr>code = ''TRANSCRIPTION_FAILED'',
                message = ''Failed to transcribe '' @ platform (detect_platform url)
                  @ '' video after '' @ str_int (max max_retries 5) @ '' attempts: '' @ msg,
                details = msg,
                platform_recommendation = Some (recommendation (detect_platform url))\<rparr>),
             sleeps @ [5 * 2 ^ attempt])
          else retry_loop supadata url lang txt mode (detect_platform url) (max max_retries 5)
                 (Suc attempt) (sleeps @ [5 * 2 ^ attempt]))) \<and>
    ((\<forall>a. int a < max max_retries 5 \<longrightarrow>
          (\<exists>msg. supadata url lang txt mode a = SupadataError msg \<and> str_in ''status 429'' msg)) \<longrightarrow>
       error_code (fst (transcribe_with_retry supadata url lang txt mode max_retries))
         = Some ''TRANSCRIPTION_FAILED'' \<and>
       snd (transcribe_with_retry supadata url lang txt mode max_retries)
         = map (\<lambda>n. 5 * 2 ^ n) [0..<nat (max max_retries 5)])"
proof -
  let ?B = "max max_retries 5"
  let ?info = "detect_platform url"
  have sup: "supported ?info" using low by (rule low_supported)
  have pos: "int 0 < ?B" by simp
  have run: "transcribe_with_retry supadata url lang txt mode max_retries =
      (case retry_loop supadata url lang txt mode ?info ?B 0 [] of
         (Some res, sleeps) \<Rightarrow> (res, sleeps)
       | (None, sleeps) \<Rightarrow>
           (Error url (platform ?info)
              \<lparr>code = ''UNKNOWN_ERROR'',
               message = ''Unknown error occurred during '' @ platform ?info @ '' transcription'',
               details = ''Maximum retries exceeded'',
               platform_recommendation = Some (recommendation ?info)\<rparr>, sleeps))"
    using sup low by (simp add: transcribe_with_retry_def Let_def)
  obtain r sl where r: "retry_loop supadata url lang txt mode ?info ?B 0 [] = (Some r, sl)"
    using retry_loop_returns[OF pos] by blast
  have c2: "\<exists>r sl. retry_loop supadata url lang txt mode ?info ?B 0 [] = (Some r, sl)
            \<and> transcribe_with_retry supadata url lang txt mode max_retries = (r, sl)"
    using r run by simp
  have c3: "\<forall>attempt msg sleeps.
       int attempt < ?B \<and> supadata url lang txt mode attempt = SupadataError msg
         \<and> str_in ''status 429'' msg \<longrightarrow>
       retry_loop supadata url lang txt mode ?info ?B attempt sleeps =
         (if int attempt = ?B - 1 then
            (Some (Error url (platform ?info)
               \<lparr>code = ''TRANSCRIPTION_FAILED'',
                message = ''Failed to transcribe '' @ platform ?info
                  @ '' video after '' @ str_int ?B @ '' attempts: '' @ msg,
                details = msg,
                platform_recommendation = Some (recommendation ?info)\<rparr>),
             sleeps @ [5 * 2 ^ attempt])
          else retry_loop supadata url lang txt mode ?info ?B (Suc attempt) (sleeps @ [5 * 2 ^ attempt]))"
    using rate_limit_step by blast
  have c4: "(\<forall>a. int a < ?B \<longrightarrow>
          (\<exists>msg. supadata url lang txt mode a = SupadataError msg \<and> str_in ''status 429'' msg)) \<longrightarrow>
       error_code (fst (transcribe_with_retry supadata url lang txt mode max_retries))
         = Some ''TRANSCRIPTION_FAILED'' \<and>
       snd (transcribe_with_retry supadata url lang txt mode max_retries)
         = map (\<lambda>n. 5 * 2 ^ n) [0..<nat ?B]"
  proof
    assume all: "\<forall>a. int a < ?B \<longrightarrow>
          (\<exists>msg. supadata url lang txt mode a = SupadataError msg \<and> str_in ''status 429'' msg)"
    obtain r' where r': "retry_loop supadata url lang txt mode ?info ?B 0 [] =
           (Some r', [] @ map (\<lambda>n. 5 * 2 ^ n) [0..<nat ?B])"
         "error_code r' = Some ''TRANSCRIPTION_FAILED''"
      using all_rate_limited[of "?B" "supadata" "url" "lang" "txt" "mode" 0 "?info" "[]", OF all pos] by blast
    show "error_code (fst (transcribe_with_retry supadata url lang txt mode max_retries))
         = Some ''TRANSCRIPTION_FAILED'' \<and>
       snd (transcribe_with_retry supadata url lang txt mode max_retries)
         = map (\<lambda>n. 5 * 2 ^ n) [0..<nat ?B]"
      unfolding run r' using r'(2) by simp
  qed
  have c1: "5 \<le> ?B" by simp
  show ?thesis by (intro conjI c1 c2 c3 c4)
qed

theorem low_reliability_rate_limit_backoff_witness:
  "reliability (detect_platform ''https://www.tiktok.com/@x/video/1'') = ''low'' \<and>
   snd (transcribe_with_retry (\<lambda>u l t m n. SupadataError ''status 429'')
          ''https://www.tiktok.com/@x/video/1'' ''en'' True ''auto'' 3) = [5, 10, 20, 40, 80] \<and>
   error_code (fst (transcribe_with_retry (\<lambda>u l t m n. SupadataError ''status 429'')
          ''https://www.tiktok.com/@x/video/1'' ''en'' True ''auto'' 3)) = Some ''TRANSCRIPTION_FAILED''"
proof -
  have low: "reliability (detect_platform ''https://www.tiktok.com/@x/video/1'') = ''low''"
    by code_simp
  have up: "[0..<nat (max 3 5)] = [0, 1, 2, 3, 4]" by code_simp
  show ?thesis
    using low low_reliability_rate_limit_backoff[OF low,
        of 3 "\<lambda>u l t m n. SupadataError ''status 429''" "''en''" True "''auto''"]
    unfolding up by simp
qed

section \<open>Absent nested blocks in result assembly\<close>

lemma absent_block_rejected:
  assumes "map_of kvs ''sutherlandAlchemy'' = None \<or> map_of kvs ''hormoziValueStack'' = None"
  shows "construct_AITailoringData render rest (tailoring_kwargs kvs md pt)
     = Inl (render (tailoring_kwargs kvs md pt))"
  using assms
  by (auto simp: construct_AITailoringData_def tailoring_kwargs_def dict_get_def has_fields_def
      SutherlandAlchemy_fields_def HormoziValueStack_fields_def)

lemma absent_block_error_result:
  assumes "map_of kvs ''sutherlandAlchemy'' = None \<or> map_of kvs ''hormoziValueStack'' = None"
    and "fst (parse_ai_response loads ai_response) = Inr (JObject kvs)"
    and "dict_get kvs ''tailoredScript'' (JString []) = JString script"
  shows "generate_tailored_script (construct_AITailoringData render rest) loads
           (Completed ai_response) request t0 t1
     = error_data (render (tailoring_kwargs kvs
          (calculate_metadata script (originalTranscript request) (t1 - t0)) (t1 - t0))) (t1 - t0)"
proof -
  have "assemble (construct_AITailoringData render rest) (JObject kvs) request (t1 - t0)
     = Inl (render (tailoring_kwargs kvs
          (calculate_metadata script (originalTranscript request) (t1 - t0)) (t1 - t0)))"
    using assms(3) absent_block_rejected[OF assms(1)] by (simp add: assemble_def)
  then show ?thesis
    using assms(2) by (simp add: generate_tailored_script_def call_openai_api_def Let_def)
qed

text \<open>
  Claim C7 at an answer without nested blocks. The answer \<open>{"tailoredScript": "Hi"}\<close>
  decodes to a dictionary that has the script and neither nested block. Assembly passes
  the default \<open>{}\<close> for both blocks to the constructor; an empty dictionary has none of
  the required fields of \<open>SutherlandAlchemy\<close> and \<open>HormoziValueStack\<close>, so the constructor
  raises, and \<open>generate_tailored_script\<close> returns the error result: confidence 0.0, word
  count 0, and a \<open>tailoredScript\<close> that starts with \<open>Error generating script: \<close> in
  place of the script \<open>Hi\<close>. The absent blocks are not defaulted to a value of their
  schema, and assembly takes its error path.
\<close>

theorem absent_nested_block_fails:
  "fst (parse_ai_response json_loads ''{\"tailoredScript\": \"Hi\"}'')
     = Inr (JObject [(''tailoredScript'', JString ''Hi'')]) \<and>
   arg_sutherlandAlchemy (tailoring_kwargs [(''tailoredScript'', JString ''Hi'')] md pt) = JObject [] \<and>
   arg_hormoziValueStack (tailoring_kwargs [(''tailoredScript'', JString ''Hi'')] md pt) = JObject [] \<and>
   \<not> has_fields SutherlandAlchemy_fields (JObject []) \<and>
   \<not> has_fields HormoziValueStack_fields (JObject []) \<and>
   generate_tailored_script (construct_AITailoringData render rest) json_loads
       (Completed ''{\"tailoredScript\": \"Hi\"}'') request t0 t1
     = error_data (render (tailoring_kwargs [(''tailoredScript'', JString ''Hi'')]
          (calculate_metadata ''Hi'' (originalTranscript request) (t1 - t0)) (t1 - t0))) (t1 - t0) \<and>
   confidence (generate_tailored_script (construct_AITailoringData render rest) json_loads
       (Completed ''{\"tailoredScript\": \"Hi\"}'') request t0 t1) = 0 \<and>
   prefix ''Error generating script: ''
     (tailoredScript (generate_tailored_script (construct_AITailoringData render rest) json_loads
       (Completed ''{\"tailoredScript\": \"Hi\"}'') request t0 t1)) \<and>
   AITailoringData.wordCount (generate_tailored_script (construct_AITailoringData render rest) json_loads
       (Completed ''{\"tailoredScript\": \"Hi\"}'') request t0 t1) = 0"
proof -
  have p: "fst (parse_ai_response json_loads ''{\"tailoredScript\": \"Hi\"}'')
     = Inr (JObject [(''tailoredScript'', JString ''Hi'')])"
    by code_simp
  have a: "arg_sutherlandAlchemy (tailoring_kwargs [(''tailoredScript'', JString ''Hi'')] md pt) = JObject []"
    "arg_hormoziValueStack (tailoring_kwargs [(''tailoredScript'', JString ''Hi'')] md pt) = JObject []"
    by (simp_all add: tailoring_kwargs_def dict_get_def)
  have h: "\<not> has_fields SutherlandAlchemy_fields (JObject [])"
    "\<not> has_fields HormoziValueStack_fields (JObject [])"
    by (simp_all add: has_fields_def SutherlandAlchemy_fields_def HormoziValueStack_fields_def)
  have m: "map_of [(''tailoredScript'', JString ''Hi'')] ''sutherlandAlchemy'' = None
      \<or> map_of [(''tailoredScript'', JString ''Hi'')] ''hormoziValueStack'' = None"
    by simp
  have s: "dict_get [(''tailoredScript'', JString ''Hi'')] ''tailoredScript'' (JString []) = JString ''Hi''"
    by (simp add: dict_get_def)
  have g: "generate_tailored_script (construct_AITailoringData render rest) json_loads
       (Completed ''{\"tailoredScript\": \"Hi\"}'') request t0 t1
     = error_data (render (tailoring_kwargs [(''tailoredScript'', JString ''Hi'')]
          (calculate_metadata ''Hi'' (originalTranscript request) (t1 - t0)) (t1 - t0))) (t1 - t0)"
    using m p s by (rule absent_block_error_result)
  have c: "confidence (generate_tailored_script (construct_AITailoringData render rest) json_loads
       (Completed ''{\"tailoredScript\": \"Hi\"}'') request t0 t1) = 0"
    unfolding g by (simp add: error_data_def)
  have e: "prefix ''Error generating script: ''
     (tailoredScript (generate_tailored_script (construct_AITailoringData render rest) json_loads
       (Completed ''{\"tailoredScript\": \"Hi\"}'') request t0 t1))"
    unfolding g by (simp add: error_data_def)
  have w: "AITailoringData.wordCount (generate_tailored_script (construct_AITailoringData render rest) json_loads
       (Completed ''{\"tailoredScript\": \"Hi\"}'') request t0 t1) = 0"
    unfolding g by (simp add: error_data_def)
  show ?thesis by (intro conjI p a h g c e w)
qed

section \<open>The read time estimate\<close>

lemma floor_seconds: "\<lfloor>real n / 150 * 60\<rfloor> = int (n * 60 div 150)"
proof -
  have "real n / 150 * 60 = real (n * 60) / real 150" by simp
  then show ?thesis by (simp only: floor_divide_of_nat_eq) 
qed

lemma round_tenths: "round_half_even (real n / 150 * 10) = int ((2 * n + 15) div 30)"
proof -
  define q where "q = n div 15"
  define m where "m = n mod 15"
  have n: "n = 15 * q + m" and m: "m < 15" by (simp_all add: q_def m_def)
  have rn: "real n = 15 * real q + real m" by (subst n) simp
  have x: "real n / 150 * 10 = real q + real m / 15" unfolding rn by (simp add: field_simps)
  have fl: "\<lfloor>real n / 150 * 10\<rfloor> = int q"
    unfolding x using m by (simp add: floor_eq_iff)
  have r: "real n / 150 * 10 - of_int (int q) = real m / 15" unfolding x by simp
  have d: "(2 * n + 15) div 30 = (if m < 8 then q else q + 1)" using m n by auto
  have c1: "real m / 15 < 1 / 2 \<longleftrightarrow> m < 8" by (simp add: field_simps) linarith
  have c2: "1 / 2 < real m / 15 \<longleftrightarrow> 8 \<le> m" by (simp add: field_simps) linarith
  show ?thesis
    unfolding round_half_even_def Let_def fl r d c1 c2 by auto
qed

lemma tenths_nearest: "\<bar>real ((2 * n + 15) div 30) - real n / 150 * 10\<bar> < 1 / 2"
proof -
  define q where "q = n div 15"
  define m where "m = n mod 15"
  have n: "n = 15 * q + m" and m: "m < 15" by (simp_all add: q_def m_def)
  have rn: "real n = 15 * real q + real m" by (subst n) simp
  have d: "(2 * n + 15) div 30 = (if m < 8 then q else q + 1)" using m n by auto
  show ?thesis unfolding d rn using m by (auto simp: field_simps abs_if)
qed

lemma split_acc_word: "split_acc (''word '' @ r) [] = ''word'' # split_acc r []"
  by (simp add: isspace_def)

lemma split_words: "split (concat (replicate n ''word '')) = replicate n ''word''"
  unfolding split_def
proof (induction n)
  case 0 show ?case by simp
next
  case (Suc n)
  have "concat (replicate (Suc n) ''word '') = ''word '' @ concat (replicate n ''word '')" by simp
  then show ?case using Suc by (simp only: split_acc_word replicate_Suc)
qed

lemma ert: "metadata.estimatedReadTime (calculate_metadata s t p) =
  (if length (split s) < 150 then str_nat (length (split s) * 60 div 150) @ ''s''
   else str_nat ((2 * length (split s) + 15) div 30 div 10) @ ''.'' @
        str_nat ((2 * length (split s) + 15) div 30 mod 10) @ ''m'')"
  unfolding calculate_metadata_def Let_def format_1f_def floor_seconds round_tenths
  by simp

text \<open>
  Claim C8. For every tailored script the metadata calculator sets \<open>wordCount\<close> to the
  number of whitespace-separated tokens. Below 150 words the read time is the whole number
  of seconds \<open>wordCount * 60 div 150\<close>, which is below 60, followed by \<open>s\<close>; from 150 words
  on it is the number of minutes rounded to the nearest tenth, one decimal digit, followed
  by \<open>m\<close>. A script of 150 words gives \<open>1.0m\<close>, one of 149 words gives \<open>59s\<close>.
\<close>

theorem calculate_metadata_read_time:
  "metadata.wordCount (calculate_metadata s t p) = length (split s) \<and>
   (if length (split s) < 150
    then metadata.estimatedReadTime (calculate_metadata s t p) = str_nat (length (split s) * 60 div 150) @ ''s''
         \<and> length (split s) * 60 div 150 < 60
    else metadata.estimatedReadTime (calculate_metadata s t p) =
           str_nat ((2 * length (split s) + 15) div 30 div 10) @ ''.'' @
           str_nat ((2 * length (split s) + 15) div 30 mod 10) @ ''m''
         \<and> \<bar>real ((2 * length (split s) + 15) div 30) - real (length (split s)) / 150 * 10\<bar> < 1 / 2) \<and>
   length (split (concat (replicate 150 ''word ''))) = 150 \<and>
   metadata.estimatedReadTime (calculate_metadata (concat (replicate 150 ''word '')) t p) = ''1.0m'' \<and>
   length (split (concat (replicate 149 ''word ''))) = 149 \<and>
   metadata.estimatedReadTime (calculate_metadata (concat (replicate 149 ''word '')) t p) = ''59s''"
proof -
  have wc: "metadata.wordCount (calculate_metadata s t p) = length (split s)"
    by (simp add: calculate_metadata_def Let_def)
  have lt: "length (split s) < 150 \<Longrightarrow> length (split s) * 60 div 150 < 60" by simp
  have s1: "str_nat 1 = ''1''" "str_nat 0 = ''0''" "str_nat 59 = ''59''" "str_nat (Suc 0) = ''1''" by code_simp+
  have a: "metadata.estimatedReadTime (calculate_metadata (concat (replicate 150 ''word '')) t p) = ''1.0m''"
    by (simp add: ert split_words s1)
  have b: "metadata.estimatedReadTime (calculate_metadata (concat (replicate 149 ''word '')) t p) = ''59s''"
    by (simp add: ert split_words s1)
  have br: "if length (split s) < 150
    then metadata.estimatedReadTime (calculate_metadata s t p) = str_nat (length (split s) * 60 div 150) @ ''s''
         \<and> length (split s) * 60 div 150 < 60
    else metadata.estimatedReadTime (calculate_metadata s t p) =
           str_nat ((2 * length (split s) + 15) div 30 div 10) @ ''.'' @
           str_nat ((2 * length (split s) + 15) div 30 mod 10) @ ''m''
         \<and> \<bar>real ((2 * length (split s) + 15) div 30) - real (length (split s)) / 150 * 10\<bar> < 1 / 2"
  proof (cases "length (split s) < 150")
    case True
    have e: "metadata.estimatedReadTime (calculate_metadata s t p) = str_nat (length (split s) * 60 div 150) @ ''s''"
      using True by (simp only: ert if_True)
    show ?thesis unfolding if_P[OF True] by (intro conjI e lt[OF True])
  next
    case False
    have e: "metadata.estimatedReadTime (calculate_metadata s t p) =
           str_nat ((2 * length (split s) + 15) div 30 div 10) @ ''.'' @
           str_nat ((2 * length (split s) + 15) div 30 mod 10) @ ''m''"
      using False by (simp only: ert if_False)
    show ?thesis unfolding if_not_P[OF False] by (intro conjI e tenths_nearest)
  qed
  have c150: "length (split (concat (replicate 150 ''word ''))) = 150"
    by (simp only: split_words length_replicate)
  have c149: "length (split (concat (replicate 149 ''word ''))) = 149"
    by (simp only: split_words length_replicate)
  show ?thesis by (intro conjI wc br c150 a c149 b)
qed

section \<open>A timeout of the model call\<close>

text \<open>
  Claim C9. When the call of the model runs into the timeout of \<open>REQUEST_TIMEOUT\<close> = 60
  seconds, \<open>generate_tailored_script\<close> returns a result with every field set: the
  confidence is 0.0 and \<open>tailoredScript\<close> starts with the marker \<open>Error generating script: \<close>.
  The function returns a result for every validator, decoder and request, so no exception
  leaves it.
\<close>

theorem timeout_gives_error_result:
  "generate_tailored_script validate loads TimedOut request start_time end_time =
     \<lparr>tailoredScript = ''Error generating script: API call timed out after 60 seconds'',
      confidence = 0,
      processingTime = end_time - start_time,
      wordCount = 0,
      estimatedReadTime = ''0s'',
      sectionBreakdown = [],
      sutherlandAlchemy =
        \<lparr>explanation = ''Error occurred during processing'',
         valueReframing = [], identityShifts = []\<rparr>,
      hormoziValueStack =
        \<lparr>coreOffer = ''Error in analysis'',
         valueElements = [], totalStack = [], grandSlamElements = []\<rparr>\<rparr> \<and>
   confidence (generate_tailored_script validate loads TimedOut request start_time end_time) = 0 \<and>
   prefix ''Error generating script: ''
     (tailoredScript (generate_tailored_script validate loads TimedOut request start_time end_time)) \<and>
   call_openai_api TimedOut = Inl ''API call timed out after 60 seconds''"
proof -
  have t: "str_nat REQUEST_TIMEOUT = ''60''" unfolding REQUEST_TIMEOUT_def by code_simp
  have c: "call_openai_api TimedOut = Inl ''API call timed out after 60 seconds''"
    by (simp add: call_openai_api_def t)
  have g: "generate_tailored_script validate loads TimedOut request start_time end_time =
      error_data ''API call timed out after 60 seconds'' (end_time - start_time)"
    by (simp add: generate_tailored_script_def c Let_def)
  show ?thesis unfolding g using c by (simp add: error_data_def)
qed

section \<open>The cache of the transcription endpoint\<close>

lemma fetch_and_store_ok:
  "cache_ok (CACHE st) \<Longrightarrow> cache_ok (CACHE (fetch_and_store h sp l t m now st u))"
  by (auto simp: cache_ok_def fetch_and_store_def Let_def)

lemma cache_ok_del: "cache_ok c \<Longrightarrow> cache_ok (c(k := None))"
  by (auto simp: cache_ok_def)

lemma transcribe_url_ok:
  "cache_ok (CACHE st) \<Longrightarrow> cache_ok (CACHE (transcribe_url h sp l t m now st u))"
  by (auto simp: transcribe_url_def Let_def cache_ok_del intro!: fetch_and_store_ok split: option.splits)

lemma foldl_ok:
  "cache_ok (CACHE st) \<Longrightarrow> cache_ok (CACHE (foldl (transcribe_url h sp l t m now) st us))"
  by (induction us arbitrary: st) (auto simp: transcribe_url_ok)

lemma transcribe_ok:
  "cache_ok (CACHE st) \<Longrightarrow> cache_ok (CACHE (snd (transcribe h sp now st us l t m)))"
  by (simp add: transcribe_def Let_def foldl_ok)

lemma step_error_uncached:
  assumes "cache_ok (CACHE st)"
    and "status (last (results (transcribe_url h sp l t m now st u))) = ''error''"
  shows "CACHE (transcribe_url h sp l t m now st u) (h u) = None \<and>
         fetched (transcribe_url h sp l t m now st u) = fetched st @ [u]"
proof (cases "CACHE st (h u)")
  case None
  then show ?thesis using assms(2)
    by (auto simp: transcribe_url_def fetch_and_store_def Let_def split: if_splits)
next
  case (Some e)
  have ok: "status (result e) \<in> {''success'', ''processing''}"
    using assms(1) Some by (auto simp: cache_ok_def)
  show ?thesis
  proof (cases "now - cache_entry.timestamp e < CACHE_TTL")
    case True
    then show ?thesis using assms(2) Some ok by (auto simp: transcribe_url_def Let_def)
  next
    case False
    then show ?thesis using assms(2) Some
      by (auto simp: transcribe_url_def fetch_and_store_def Let_def split: if_splits)
  qed
qed

lemma step_miss_fetches:
  "CACHE st (h u) = None \<Longrightarrow> fetched (transcribe_url h sp l t m now st u) = fetched st @ [u]"
  by (simp add: transcribe_url_def fetch_and_store_def Let_def)

lemma step_other_key:
  "h v \<noteq> h u \<Longrightarrow> CACHE (transcribe_url h sp l t m now st v) (h u) = CACHE st (h u)"
  by (auto simp: transcribe_url_def fetch_and_store_def Let_def split: option.splits)

lemma step_fetched_grows:
  "\<exists>ys. fetched (transcribe_url h sp l t m now st v) = fetched st @ ys"
  by (auto simp: transcribe_url_def fetch_and_store_def Let_def split: option.splits)

lemma foldl_fetched_grows:
  "\<exists>ys. fetched (foldl (transcribe_url h sp l t m now) st vs) = fetched st @ ys"
proof (induction vs arbitrary: st)
  case Nil show ?case by simp
next
  case (Cons v vs)
  obtain ys where a: "fetched (transcribe_url h sp l t m now st v) = fetched st @ ys"
    using step_fetched_grows by blast
  obtain zs where b: "fetched (foldl (transcribe_url h sp l t m now) (transcribe_url h sp l t m now st v) vs)
      = fetched (transcribe_url h sp l t m now st v) @ zs"
    using Cons.IH by blast
  show ?case using a b by simp
qed

lemma foldl_miss_fetches:
  "CACHE st (h u) = None \<Longrightarrow> u \<in> set vs \<Longrightarrow> \<forall>v\<in>set vs. h v = h u \<longrightarrow> v = u \<Longrightarrow>
     u \<in> set (drop (length (fetched st)) (fetched (foldl (transcribe_url h sp l t m now) st vs)))"
proof (induction vs arbitrary: st)
  case Nil then show ?case by simp
next
  case (Cons v vs)
  let ?st1 = "transcribe_url h sp l t m now st v"
  obtain zs where z: "fetched (foldl (transcribe_url h sp l t m now) ?st1 vs) = fetched ?st1 @ zs"
    using foldl_fetched_grows by blast
  show ?case
  proof (cases "v = u")
    case True
    have "fetched ?st1 = fetched st @ [u]" using Cons.prems(1) True step_miss_fetches by simp
    then show ?thesis using z by simp
  next
    case False
    have hv: "h v \<noteq> h u" using Cons.prems(3) False by auto
    have n: "CACHE ?st1 (h u) = None" using step_other_key[of h v u, OF hv] Cons.prems(1) by simp
    have uin: "u \<in> set vs" using Cons.prems(2) False by simp
    have rest: "\<forall>v\<in>set vs. h v = h u \<longrightarrow> v = u" using Cons.prems(3) by simp
    obtain ys where y: "fetched ?st1 = fetched st @ ys" using step_fetched_grows by blast
    have "u \<in> set (drop (length (fetched ?st1)) (fetched (foldl (transcribe_url h sp l t m now) ?st1 vs)))"
      using Cons.IH[OF n uin rest] .
    then have "u \<in> set zs" using z by simp
    then show ?thesis using z y by simp
  qed
qed

lemma transcribe_state: "snd (transcribe h sp now st us l t m) =
    foldl (transcribe_url h sp l t m now) (st\<lparr>results := []\<rparr>) us"
  by (simp add: transcribe_def Let_def)

text \<open>
  Claim C10. The \<open>/transcribe\<close> endpoint stores a result only when its status is
  \<open>success\<close> or \<open>processing\<close>. The empty cache holds no error and a request keeps it so;
  on a cache miss the entry stored for the URL is the new result when its status is one of
  the two, and none otherwise. When the result for a URL is an error, that URL was fetched
  and has no entry afterwards; and a request that contains a URL without entry fetches it
  again, when no other URL of the request has the same hash.
\<close>

theorem errors_never_cached:
  assumes ok: "cache_ok (CACHE st)"
  shows "cache_ok Map.empty \<and>
    cache_ok (CACHE (snd (transcribe hash_url supadata now st urls lang txt mode))) \<and>
    (CACHE st (hash_url url) = None \<longrightarrow>
       CACHE (transcribe_url hash_url supadata lang txt mode now st url) (hash_url url) =
         (if status (last (results (transcribe_url hash_url supadata lang txt mode now st url)))
               \<in> {''success'', ''processing''}
          then Some \<lparr>cache_entry.result = last (results (transcribe_url hash_url supadata lang txt mode now st url)),
                     cache_entry.timestamp = now\<rparr>
          else None)) \<and>
    (status (last (results (transcribe_url hash_url supadata lang txt mode now st url))) = ''error'' \<longrightarrow>
       CACHE (transcribe_url hash_url supadata lang txt mode now st url) (hash_url url) = None \<and>
       fetched (transcribe_url hash_url supadata lang txt mode now st url) = fetched st @ [url]) \<and>
    (CACHE st (hash_url url) = None \<and> url \<in> set urls
        \<and> (\<forall>v\<in>set urls. hash_url v = hash_url url \<longrightarrow> v = url) \<longrightarrow>
       url \<in> set (drop (length (fetched st))
                 (fetched (snd (transcribe hash_url supadata now st urls lang txt mode)))))"
proof -
  have c1: "cache_ok Map.empty" by (simp add: cache_ok_def)
  have c2: "cache_ok (CACHE (snd (transcribe hash_url supadata now st urls lang txt mode)))"
    using ok by (rule transcribe_ok)
  have c3: "CACHE st (hash_url url) = None \<longrightarrow>
       CACHE (transcribe_url hash_url supadata lang txt mode now st url) (hash_url url) =
         (if status (last (results (transcribe_url hash_url supadata lang txt mode now st url)))
               \<in> {''success'', ''processing''}
          then Some \<lparr>cache_entry.result = last (results (transcribe_url hash_url supadata lang txt mode now st url)),
                     cache_entry.timestamp = now\<rparr>
          else None)"
    by (simp add: transcribe_url_def fetch_and_store_def Let_def)
  have c4: "status (last (results (transcribe_url hash_url supadata lang txt mode now st url))) = ''error'' \<longrightarrow>
       CACHE (transcribe_url hash_url supadata lang txt mode now st url) (hash_url url) = None \<and>
       fetched (transcribe_url hash_url supadata lang txt mode now st url) = fetched st @ [url]"
    using step_error_uncached[OF ok] by blast
  have c5: "CACHE st (hash_url url) = None \<and> url \<in> set urls
        \<and> (\<forall>v\<in>set urls. hash_url v = hash_url url \<longrightarrow> v = url) \<longrightarrow>
       url \<in> set (drop (length (fetched st))
                 (fetched (snd (transcribe hash_url supadata now st urls lang txt mode))))"
  proof
    assume a: "CACHE st (hash_url url) = None \<and> url \<in> set urls
        \<and> (\<forall>v\<in>set urls. hash_url v = hash_url url \<longrightarrow> v = url)"
    have n: "CACHE (st\<lparr>results := []\<rparr>) (hash_url url) = None" using a by simp
    have u: "url \<in> set urls" using a by simp
    have d: "\<forall>v\<in>set urls. hash_url v = hash_url url \<longrightarrow> v = url" using a by simp
    have "url \<in> set (drop (length (fetched (st\<lparr>results := []\<rparr>)))
        (fetched (foldl (transcribe_url hash_url supadata lang txt mode now) (st\<lparr>results := []\<rparr>) urls)))"
      using n u d by (rule foldl_miss_fetches)
    then show "url \<in> set (drop (length (fetched st))
                 (fetched (snd (transcribe hash_url supadata now st urls lang txt mode))))"
      by (simp add: transcribe_state)
  qed
  show ?thesis by (intro conjI c1 c2 c3 c4 c5)
qed

theorem errors_never_cached_witness:
  "cache_ok (CACHE \<lparr>CACHE = Map.empty, results = [], fetched = []\<rparr>) \<and>
   status (last (results (transcribe_url (\<lambda>u. u) (\<lambda>n u l t m a. OtherException ''down'') ''en'' True ''auto'' 0
      \<lparr>CACHE = Map.empty, results = [], fetched = []\<rparr> ''https://vimeo.com/1''))) = ''error'' \<and>
   CACHE (transcribe_url (\<lambda>u. u) (\<lambda>n u l t m a. OtherException ''down'') ''en'' True ''auto'' 0
      \<lparr>CACHE = Map.empty, results = [], fetched = []\<rparr> ''https://vimeo.com/1'') ''https://vimeo.com/1'' = None \<and>
   fetched (transcribe_url (\<lambda>u. u) (\<lambda>n u l t m a. OtherException ''down'') ''en'' True ''auto'' 0
      \<lparr>CACHE = Map.empty, results = [], fetched = []\<rparr> ''https://vimeo.com/1'') = [''https://vimeo.com/1''] \<and>
   ''https://vimeo.com/1'' \<in> set (fetched (snd (transcribe (\<lambda>u. u) (\<lambda>n u l t m a. OtherException ''down'') 0
      \<lparr>CACHE = Map.empty, results = [], fetched = []\<rparr> [''https://vimeo.com/1''] ''en'' True ''auto'')))"
proof -
  let ?st = "\<lparr>CACHE = Map.empty, results = [], fetched = []\<rparr>"
  let ?sp = "\<lambda>(n::nat) (u::string) (l::string) (t::bool) (m::string) (a::nat). OtherException ''down''"
  have k: "cache_ok (CACHE ?st)" by (simp add: cache_ok_def)
  have p: "detect_platform ''https://vimeo.com/1'' =
      \<lparr>platform = ''Vimeo'', supported = False, reliability = ''none'',
       recommendation = ''Not supported by Supadata. Use alternative transcription service.''\<rparr>"
    by code_simp
  have e: "status (last (results (transcribe_url (\<lambda>u. u) ?sp ''en'' True ''auto'' 0 ?st ''https://vimeo.com/1'')))
      = ''error''"
    by (simp add: transcribe_url_def fetch_and_store_def transcribe_with_retry_def p Let_def)
  show ?thesis
    using k e errors_never_cached[OF k, of "\<lambda>u. u" ?sp 0 "[''https://vimeo.com/1'']" "''en''" True "''auto''"
        "''https://vimeo.com/1''"]
    by simp
qed

end
